theory Spec2Isabelle
  imports Main "HOL-Library.Multiset"
begin

section \<open>Observable properties: the data model\<close>

text \<open>
  The module \<^verbatim>\<open>observable_properties.py\<close> defines the descriptor class
  \<^verbatim>\<open>observable\<close> (a subclass of \<^verbatim>\<open>property\<close>), the mixin \<^verbatim>\<open>Observable\<close> and the
  functions \<^verbatim>\<open>subscribe\<close> and \<^verbatim>\<open>unsubscribe\<close>.  Its behaviour rests on Python's
  attribute lookup (instance dictionary, class dictionaries along the MRO, data
  descriptors) and on list objects that are shared by reference, so the model has an
  explicit store: list objects live in a heap, classes and instances have dictionaries.
\<close>

type_synonym addr = nat
type_synonym oid = nat
type_synonym cid = nat
type_synonym cbid = nat

datatype exn = ObservablePropertyError | AttributeError | TypeError | OtherError nat

text \<open>
  An \<^verbatim>\<open>observable\<close> object: the three attributes written by \<^verbatim>\<open>__set_name__\<close> and the
  accessors inherited from \<^verbatim>\<open>property\<close>.  An accessor is \<open>None\<close> when the property has
  none, and \<open>Some f\<close> for the usual accessor over a backing field \<open>f\<close> of the instance
  (\<^verbatim>\<open>return self.f\<close>, \<^verbatim>\<open>self.f = value\<close>, \<^verbatim>\<open>del self.f\<close>).
\<close>

record descriptor =
  observable_property :: string
  subscribers :: string
  recursions :: string
  fget :: "string option"
  fset :: "string option"
  fdel :: "string option"

datatype val = Data int | ListRef addr | Obs descriptor

text \<open>
  The program state.  \<open>heap\<close> holds the list objects (lists of callbacks), \<open>cls_dict c\<close>
  is \<^verbatim>\<open>vars(c)\<close>, \<open>cls_mro c\<close> the method resolution order of class \<open>c\<close> (starting
  with \<open>c\<close>), \<open>inst_cls i\<close> is \<^verbatim>\<open>i.__class__\<close> and \<open>inst_dict i\<close> is \<^verbatim>\<open>i.__dict__\<close>.
  \<open>calls\<close> records every invocation of an observer with its three arguments.
\<close>

record pystate =
  heap :: "addr \<Rightarrow> cbid list"
  next_addr :: addr
  cls_dict :: "cid \<Rightarrow> string \<rightharpoonup> val"
  cls_mro :: "cid \<Rightarrow> cid list"
  inst_cls :: "oid \<Rightarrow> cid"
  inst_dict :: "oid \<Rightarrow> string \<rightharpoonup> val"
  calls :: "(cbid \<times> oid \<times> string \<times> val) list"

definition init_state :: pystate where
  "init_state = \<lparr>heap = (\<lambda>_. []), next_addr = 0, cls_dict = (\<lambda>_. Map.empty),
     cls_mro = (\<lambda>c. [c]), inst_cls = (\<lambda>_. 0), inst_dict = (\<lambda>_. Map.empty), calls = []\<rparr>"

subsection \<open>Attribute lookup of the Python runtime\<close>

fun class_lookup :: "(cid \<Rightarrow> string \<rightharpoonup> val) \<Rightarrow> cid list \<Rightarrow> string \<Rightarrow> val option" where
  "class_lookup cd [] n = None"
| "class_lookup cd (c # cs) n =
     (case cd c n of Some v \<Rightarrow> Some v | None \<Rightarrow> class_lookup cd cs n)"

definition type_lookup :: "pystate \<Rightarrow> oid \<Rightarrow> string \<Rightarrow> val option" where
  "type_lookup s inst n = class_lookup (cls_dict s) (cls_mro s (inst_cls s inst)) n"

text \<open>\<^verbatim>\<open>property.__get__\<close>, \<^verbatim>\<open>property.__set__\<close> and \<^verbatim>\<open>property.__delete__\<close>.\<close>

definition property_get :: "descriptor \<Rightarrow> oid \<Rightarrow> pystate \<Rightarrow> exn + val" where
  "property_get d inst s =
     (case fget d of
        None \<Rightarrow> Inl AttributeError
      | Some f \<Rightarrow> (case inst_dict s inst f of None \<Rightarrow> Inl AttributeError | Some v \<Rightarrow> Inr v))"

definition property_set :: "descriptor \<Rightarrow> oid \<Rightarrow> val \<Rightarrow> pystate \<Rightarrow> (exn + unit) \<times> pystate" where
  "property_set d inst v s =
     (case fset d of
        None \<Rightarrow> (Inl AttributeError, s)
      | Some f \<Rightarrow> (Inr (), s\<lparr>inst_dict := (inst_dict s)(inst := (inst_dict s inst)(f \<mapsto> v))\<rparr>))"

definition property_delete :: "descriptor \<Rightarrow> oid \<Rightarrow> pystate \<Rightarrow> (exn + unit) \<times> pystate" where
  "property_delete d inst s =
     (case fdel d of
        None \<Rightarrow> (Inl AttributeError, s)
      | Some f \<Rightarrow>
          (case inst_dict s inst f of
             None \<Rightarrow> (Inl AttributeError, s)
           | Some _ \<Rightarrow> (Inr (), s\<lparr>inst_dict := (inst_dict s)(inst := (inst_dict s inst)(f := None))\<rparr>)))"

text \<open>
  \<^verbatim>\<open>getattr(instance, n)\<close>: a data descriptor found on the type wins, then the
  instance dictionary, then a plain class attribute.  \<^verbatim>\<open>hasattr\<close> is \<^verbatim>\<open>getattr\<close> that
  does not raise \<^verbatim>\<open>AttributeError\<close> (the only exception \<open>py_getattr\<close> can raise).
\<close>

definition py_getattr :: "pystate \<Rightarrow> oid \<Rightarrow> string \<Rightarrow> exn + val" where
  "py_getattr s inst n =
     (case type_lookup s inst n of
        Some (Obs d) \<Rightarrow> property_get d inst s
      | Some cv \<Rightarrow> (case inst_dict s inst n of Some v \<Rightarrow> Inr v | None \<Rightarrow> Inr cv)
      | None \<Rightarrow> (case inst_dict s inst n of Some v \<Rightarrow> Inr v | None \<Rightarrow> Inl AttributeError))"

definition py_hasattr :: "pystate \<Rightarrow> oid \<Rightarrow> string \<Rightarrow> bool" where
  "py_hasattr s inst n = (case py_getattr s inst n of Inl _ \<Rightarrow> False | Inr _ \<Rightarrow> True)"

text \<open>\<^verbatim>\<open>object.__delattr__\<close> on a name that is no data descriptor.\<close>

definition instance_delattr :: "oid \<Rightarrow> string \<Rightarrow> pystate \<Rightarrow> (exn + unit) \<times> pystate" where
  "instance_delattr inst n s =
     (case inst_dict s inst n of
        None \<Rightarrow> (Inl AttributeError, s)
      | Some _ \<Rightarrow> (Inr (), s\<lparr>inst_dict := (inst_dict s)(inst := (inst_dict s inst)(n := None))\<rparr>))"

definition instance_setattr :: "oid \<Rightarrow> string \<Rightarrow> val \<Rightarrow> pystate \<Rightarrow> pystate" where
  "instance_setattr inst n v s = s\<lparr>inst_dict := (inst_dict s)(inst := (inst_dict s inst)(n \<mapsto> v))\<rparr>"

section \<open>The subscription functions\<close>

text \<open>
  \<^verbatim>\<open>unsubscribe(callback, instance, property_name)\<close>.  \<^verbatim>\<open>callback in subscribers\<close> and
  \<^verbatim>\<open>subscribers.remove(callback)\<close> are membership and removal of the first equal
  element; on a value that is not a list the membership test raises \<^verbatim>\<open>TypeError\<close>.
\<close>

definition unsubscribe :: "cbid \<Rightarrow> oid \<Rightarrow> string \<Rightarrow> pystate \<Rightarrow> (exn + bool) \<times> pystate" where
  "unsubscribe callback instance property_name s =
     (let subscribers_attr_name = ''__'' @ property_name @ ''_subscribers'' in
      if py_hasattr s instance subscribers_attr_name then
        (case py_getattr s instance subscribers_attr_name of
           Inl e \<Rightarrow> (Inl e, s)
         | Inr (ListRef a) \<Rightarrow>
             if callback \<in> set (heap s a)
             then (Inr True, s\<lparr>heap := (heap s)(a := remove1 callback (heap s a))\<rparr>)
             else (Inr False, s)
         | Inr _ \<Rightarrow> (Inl TypeError, s))
      else (Inl ObservablePropertyError, s))"

text \<open>
  \<^verbatim>\<open>subscribe(callback, instance, property_name)\<close>: \<^verbatim>\<open>unsubscribe\<close> first (its result
  is dropped, its exception is not), then \<^verbatim>\<open>subscribers.append(callback)\<close>.
\<close>

definition subscribe :: "cbid \<Rightarrow> oid \<Rightarrow> string \<Rightarrow> pystate \<Rightarrow> (exn + unit) \<times> pystate" where
  "subscribe callback instance property_name s =
     (case unsubscribe callback instance property_name s of
        (Inl e, s1) \<Rightarrow> (Inl e, s1)
      | (Inr _, s1) \<Rightarrow>
          (let subscribers_attr_name = ''__'' @ property_name @ ''_subscribers'' in
           case py_getattr s1 instance subscribers_attr_name of
             Inl e \<Rightarrow> (Inl e, s1)
           | Inr (ListRef a) \<Rightarrow> (Inr (), s1\<lparr>heap := (heap s1)(a := heap s1 a @ [callback])\<rparr>)
           | Inr _ \<Rightarrow> (Inl AttributeError, s1)))"

section \<open>Class creation\<close>

definition class_hasattr :: "pystate \<Rightarrow> cid \<Rightarrow> string \<Rightarrow> bool" where
  "class_hasattr s owner n = (class_lookup (cls_dict s) (cls_mro s owner) n \<noteq> None)"

definition class_setattr :: "cid \<Rightarrow> string \<Rightarrow> val \<Rightarrow> pystate \<Rightarrow> pystate" where
  "class_setattr owner n v s = s\<lparr>cls_dict := (cls_dict s)(owner := (cls_dict s owner)(n \<mapsto> v))\<rparr>"

text \<open>The expression \<^verbatim>\<open>[]\<close>: a fresh, empty list object.\<close>

definition new_list :: "pystate \<Rightarrow> addr \<times> pystate" where
  "new_list s = (next_addr s, s\<lparr>heap := (heap s)(next_addr s := []), next_addr := Suc (next_addr s)\<rparr>)"

text \<open>
  \<^verbatim>\<open>observable.__set_name__(self, owner, owner_name)\<close>.  The two lists are set on
  \<open>owner\<close>, which is the class, and only when \<^verbatim>\<open>hasattr(owner, ...)\<close> is false.
\<close>

definition set_name :: "descriptor \<Rightarrow> cid \<Rightarrow> string \<Rightarrow> pystate \<Rightarrow> descriptor \<times> pystate" where
  "set_name self owner owner_name s =
     (let self1 = self\<lparr>observable_property := owner_name,
                      subscribers := ''__'' @ owner_name @ ''_subscribers'',
                      recursions := ''__'' @ owner_name @ ''_recursions''\<rparr>;
          s1 = (if \<not> class_hasattr s owner (subscribers self1)
                then (case new_list s of (a, s') \<Rightarrow> class_setattr owner (subscribers self1) (ListRef a) s')
                else s);
          s2 = (if \<not> class_hasattr s1 owner (recursions self1)
                then (case new_list s1 of (a, s') \<Rightarrow> class_setattr owner (recursions self1) (ListRef a) s')
                else s1)
      in (self1, s2))"

text \<open>
  \<^verbatim>\<open>observable(fget, fset, fdel)\<close> as the decorators build it; its three names are
  written by \<open>set_name\<close> when the class is created.
\<close>

definition new_observable :: "string option \<Rightarrow> string option \<Rightarrow> string option \<Rightarrow> val" where
  "new_observable g st dl =
     Obs \<lparr>observable_property = [], subscribers = [], recursions = [], fget = g, fset = st, fdel = dl\<rparr>"

text \<open>
  A class statement \<^verbatim>\<open>class c(base): ...\<close> with the given namespace: the class gets
  its dictionary and its MRO, then \<^verbatim>\<open>__set_name__\<close> is called on every \<^verbatim>\<open>observable\<close>
  of the namespace, in order.
\<close>

fun set_names :: "cid \<Rightarrow> (string \<times> val) list \<Rightarrow> pystate \<Rightarrow> pystate" where
  "set_names c [] s = s"
| "set_names c ((n, v) # ns) s =
     (case v of
        Obs d \<Rightarrow> (case set_name d c n s of (d1, s1) \<Rightarrow> set_names c ns (class_setattr c n (Obs d1) s1))
      | _ \<Rightarrow> set_names c ns s)"

definition define_class :: "cid \<Rightarrow> cid option \<Rightarrow> (string \<times> val) list \<Rightarrow> pystate \<Rightarrow> pystate" where
  "define_class c base namespace s =
     set_names c namespace
       (s\<lparr>cls_mro := (cls_mro s)(c := c # (case base of None \<Rightarrow> [] | Some b \<Rightarrow> cls_mro s b)),
          cls_dict := (cls_dict s)(c := map_of namespace)\<rparr>)"

definition new_instance :: "cid \<Rightarrow> oid \<Rightarrow> pystate \<Rightarrow> pystate" where
  "new_instance c i s = s\<lparr>inst_cls := (inst_cls s)(i := c), inst_dict := (inst_dict s)(i := Map.empty)\<rparr>"

section \<open>Deleting an observable attribute\<close>

text \<open>
  \<^verbatim>\<open>delattr(instance, n)\<close> and \<^verbatim>\<open>observable.__delete__\<close>, which calls \<^verbatim>\<open>delattr\<close> on
  the two list names.  The first argument bounds the depth of the mutual calls.
\<close>

fun py_delattr :: "nat \<Rightarrow> oid \<Rightarrow> string \<Rightarrow> pystate \<Rightarrow> ((exn + unit) \<times> pystate) option"
  and observable_delete :: "nat \<Rightarrow> descriptor \<Rightarrow> oid \<Rightarrow> pystate \<Rightarrow> ((exn + unit) \<times> pystate) option"
where
  "py_delattr 0 inst n s = None"
| "py_delattr (Suc k) inst n s =
     (case type_lookup s inst n of
        Some (Obs d) \<Rightarrow> observable_delete k d inst s
      | _ \<Rightarrow> Some (instance_delattr inst n s))"
| "observable_delete 0 d inst s = None"
| "observable_delete (Suc k) d inst s =
     (case property_delete d inst s of
        (Inl e, s1) \<Rightarrow> Some (Inl e, s1)
      | (Inr _, s1) \<Rightarrow>
          (case py_delattr k inst (subscribers d) s1 of
             None \<Rightarrow> None
           | Some (Inl e, s2) \<Rightarrow> Some (Inl e, s2)
           | Some (Inr _, s2) \<Rightarrow> py_delattr k inst (recursions d) s2))"

section \<open>Notification\<close>

text \<open>
  Client code: what a callback does when it is called.  A callback is known to the
  library by its identity; \<open>cb_name\<close> is its \<^verbatim>\<open>__name__\<close> attribute (\<open>None\<close> for a
  callable that has none), \<open>cb_body\<close> the statements it runs for given arguments.
\<close>

datatype stmt =
    SetAttr oid string val
  | DelAttr oid string
  | Notify oid string
  | Subscribe cbid oid string
  | Unsubscribe cbid oid string
  | Raise exn
  | Try "stmt list"

record callbacks =
  cb_name :: "cbid \<Rightarrow> string option"
  cb_body :: "cbid \<Rightarrow> oid \<Rightarrow> string \<Rightarrow> val \<Rightarrow> stmt list"

text \<open>The \<^verbatim>\<open>finally: recursions.clear()\<close> clause, given the outcome of the \<^verbatim>\<open>try\<close> body.\<close>

definition finally_clear :: "val \<Rightarrow> (exn + unit) \<times> pystate \<Rightarrow> (exn + unit) \<times> pystate" where
  "finally_clear recs out =
     (case out of (r, s) \<Rightarrow>
        (case recs of
           ListRef ra \<Rightarrow> (r, s\<lparr>heap := (heap s)(ra := [])\<rparr>)
         | _ \<Rightarrow> (Inl AttributeError, s)))"

text \<open>
  The methods of \<^verbatim>\<open>observable\<close> and \<^verbatim>\<open>Observable._observable_notify\<close>, together with
  the statements of the callbacks they call.  The \<^verbatim>\<open>for\<close> loop of
  \<^verbatim>\<open>__execute_callbacks\<close> walks the live list object by index.  The first argument is
  fuel: every call spends one unit and \<open>None\<close> means that it ran out.
\<close>

function (sequential) execute_callbacks ::
    "nat \<Rightarrow> callbacks \<Rightarrow> descriptor \<Rightarrow> oid \<Rightarrow> val \<Rightarrow> val \<Rightarrow> val \<Rightarrow> nat \<Rightarrow> pystate
      \<Rightarrow> ((exn + unit) \<times> pystate) option"
  and run_observers ::
    "nat \<Rightarrow> callbacks \<Rightarrow> descriptor \<Rightarrow> oid \<Rightarrow> val \<Rightarrow> pystate \<Rightarrow> ((exn + unit) \<times> pystate) option"
  and observable_set ::
    "nat \<Rightarrow> callbacks \<Rightarrow> descriptor \<Rightarrow> oid \<Rightarrow> val \<Rightarrow> pystate \<Rightarrow> ((exn + unit) \<times> pystate) option"
  and observable_notify ::
    "nat \<Rightarrow> callbacks \<Rightarrow> oid \<Rightarrow> string \<Rightarrow> pystate \<Rightarrow> ((exn + unit) \<times> pystate) option"
  and py_setattr ::
    "nat \<Rightarrow> callbacks \<Rightarrow> oid \<Rightarrow> string \<Rightarrow> val \<Rightarrow> pystate \<Rightarrow> ((exn + unit) \<times> pystate) option"
  and exec_stmt ::
    "nat \<Rightarrow> callbacks \<Rightarrow> stmt \<Rightarrow> pystate \<Rightarrow> ((exn + unit) \<times> pystate) option"
  and exec_stmts ::
    "nat \<Rightarrow> callbacks \<Rightarrow> stmt list \<Rightarrow> pystate \<Rightarrow> ((exn + unit) \<times> pystate) option"
where
  "execute_callbacks 0 E d inst v subs recs i s = None"
| "execute_callbacks (Suc k) E d inst v subs recs i s =
     (case subs of
        ListRef sa \<Rightarrow>
          if i < length (heap s sa) then
            (let observer = heap s sa ! i in
             case recs of
               ListRef ra \<Rightarrow>
                 if observer \<notin> set (heap s ra) then
                   (let s1 = s\<lparr>heap := (heap s)(ra := heap s ra @ [observer])\<rparr>;
                        s2 = s1\<lparr>calls := calls s1 @ [(observer, inst, observable_property d, v)]\<rparr>
                    in case exec_stmts k E (cb_body E observer inst (observable_property d) v) s2 of
                         None \<Rightarrow> None
                       | Some (Inl e, s3) \<Rightarrow> Some (Inl e, s3)
                       | Some (Inr _, s3) \<Rightarrow> execute_callbacks k E d inst v subs recs (Suc i) s3)
                 else
                   (case cb_name E observer of
                      None \<Rightarrow> Some (Inl AttributeError, s)
                    | Some _ \<Rightarrow> Some (Inl ObservablePropertyError, s))
             | _ \<Rightarrow> Some (Inl TypeError, s))
          else Some (Inr (), s)
      | _ \<Rightarrow> Some (Inl TypeError, s))"
| "run_observers 0 E d inst v s = None"
| "run_observers (Suc k) E d inst v s =
     (case py_getattr s inst (subscribers d) of
        Inl e \<Rightarrow> Some (Inl e, s)
      | Inr subs \<Rightarrow>
          (case py_getattr s inst (recursions d) of
             Inl e \<Rightarrow> Some (Inl e, s)
           | Inr recs \<Rightarrow>
               map_option (finally_clear recs) (execute_callbacks k E d inst v subs recs 0 s)))"
| "observable_set 0 E d inst v s = None"
| "observable_set (Suc k) E d inst v s =
     (case py_getattr s inst (subscribers d) of
        Inl e \<Rightarrow> Some (Inl e, s)
      | Inr subs \<Rightarrow>
          (case py_getattr s inst (recursions d) of
             Inl e \<Rightarrow> Some (Inl e, s)
           | Inr recs \<Rightarrow>
               map_option (finally_clear recs)
                 (case property_set d inst v s of
                    (Inl e, s1) \<Rightarrow> Some (Inl e, s1)
                  | (Inr _, s1) \<Rightarrow> execute_callbacks k E d inst v subs recs 0 s1)))"
| "observable_notify 0 E self property_name s = None"
| "observable_notify (Suc k) E self property_name s =
     (case cls_dict s (inst_cls s self) property_name of
        Some (Obs d) \<Rightarrow>
          (case py_getattr s self property_name of
             Inl e \<Rightarrow> Some (Inl e, s)
           | Inr v \<Rightarrow> run_observers k E d self v s)
      | _ \<Rightarrow> Some (Inl ObservablePropertyError, s))"
| "py_setattr 0 E inst n v s = None"
| "py_setattr (Suc k) E inst n v s =
     (case type_lookup s inst n of
        Some (Obs d) \<Rightarrow> observable_set k E d inst v s
      | _ \<Rightarrow> Some (Inr (), instance_setattr inst n v s))"
| "exec_stmt 0 E st s = None"
| "exec_stmt (Suc k) E st s =
     (case st of
        SetAttr obj n v \<Rightarrow> py_setattr k E obj n v s
      | DelAttr obj n \<Rightarrow> py_delattr k obj n s
      | Notify obj n \<Rightarrow> observable_notify k E obj n s
      | Subscribe cb obj n \<Rightarrow> Some (subscribe cb obj n s)
      | Unsubscribe cb obj n \<Rightarrow>
          (case unsubscribe cb obj n s of
             (Inl e, s1) \<Rightarrow> Some (Inl e, s1)
           | (Inr _, s1) \<Rightarrow> Some (Inr (), s1))
      | Raise e \<Rightarrow> Some (Inl e, s)
      | Try body \<Rightarrow>
          (case exec_stmts k E body s of
             None \<Rightarrow> None
           | Some (_, s1) \<Rightarrow> Some (Inr (), s1)))"
| "exec_stmts 0 E sts s = None"
| "exec_stmts (Suc k) E sts s =
     (case sts of
        [] \<Rightarrow> Some (Inr (), s)
      | st # rest \<Rightarrow>
          (case exec_stmt k E st s of
             None \<Rightarrow> None
           | Some (Inl e, s1) \<Rightarrow> Some (Inl e, s1)
           | Some (Inr _, s1) \<Rightarrow> exec_stmts k E rest s1))"
  by pat_completeness auto
termination
  by (relation "measure (\<lambda>x. case x of
        Inl (Inl (k, _)) \<Rightarrow> k | Inl (Inr (Inl (k, _))) \<Rightarrow> k | Inl (Inr (Inr (k, _))) \<Rightarrow> k
      | Inr (Inl (Inl (k, _))) \<Rightarrow> k | Inr (Inl (Inr (k, _))) \<Rightarrow> k
      | Inr (Inr (Inl (k, _))) \<Rightarrow> k | Inr (Inr (Inr (k, _))) \<Rightarrow> k)") auto

section \<open>Declared observable attributes and an example program\<close>

text \<open>
  \<open>observable_at s inst name d sa ra\<close>: in state \<open>s\<close> the type of \<open>inst\<close> has the
  \<^verbatim>\<open>observable\<close> \<open>d\<close> under \<open>name\<close>, named as \<open>set_name\<close> names it, and the two
  list attributes that \<open>set_name\<close> has put on the class are the list objects \<open>sa\<close>
  (subscribers) and \<open>ra\<close> (recursion guard), not hidden by the instance dictionary.
\<close>

definition observable_at :: "pystate \<Rightarrow> oid \<Rightarrow> string \<Rightarrow> descriptor \<Rightarrow> addr \<Rightarrow> addr \<Rightarrow> bool" where
  "observable_at s inst name d sa ra \<longleftrightarrow>
     type_lookup s inst name = Some (Obs d) \<and>
     observable_property d = name \<and>
     subscribers d = ''__'' @ name @ ''_subscribers'' \<and>
     recursions d = ''__'' @ name @ ''_recursions'' \<and>
     type_lookup s inst (subscribers d) = Some (ListRef sa) \<and>
     type_lookup s inst (recursions d) = Some (ListRef ra) \<and>
     inst_dict s inst (subscribers d) = None \<and>
     inst_dict s inst (recursions d) = None \<and>
     sa \<noteq> ra"

text \<open>
  The example of the specification: a class \<^verbatim>\<open>Temperature\<close> (class 0) with the
  observable attribute \<^verbatim>\<open>celsius\<close> over the backing field \<^verbatim>\<open>_celsius\<close>, and two
  instances, 10 and 20.
\<close>

definition celsius :: descriptor where
  "celsius = \<lparr>observable_property = ''celsius'', subscribers = ''__celsius_subscribers'',
     recursions = ''__celsius_recursions'', fget = Some ''_celsius'', fset = Some ''_celsius'',
     fdel = Some ''_celsius''\<rparr>"

definition temperature :: pystate where
  "temperature =
     new_instance 0 20 (new_instance 0 10
       (define_class 0 None
          [(''celsius'', new_observable (Some ''_celsius'') (Some ''_celsius'') (Some ''_celsius''))]
          init_state))"

text \<open>
  Callbacks of the example: 2 is
  \<^verbatim>\<open>bad\<close> of the specification, which assigns \<^verbatim>\<open>val + 1\<close> to the attribute it
  observes; 3 is \<^verbatim>\<open>functools.partial(bad)\<close>, the same behaviour without a
  \<^verbatim>\<open>__name__\<close>; 4 raises an exception of its own; 5 assigns like \<^verbatim>\<open>bad\<close>, but only
  when the new value is 10; 8 raises an exception of its own, but only when the new value
  is 10; every other callback only takes note of what it is told.
\<close>

fun succ_val :: "val \<Rightarrow> val" where
  "succ_val (Data n) = Data (n + 1)"
| "succ_val v = v"

definition example_body :: "cbid \<Rightarrow> oid \<Rightarrow> string \<Rightarrow> val \<Rightarrow> stmt list" where
  "example_body cb inst name v =
     (if cb = 2 \<or> cb = 3 then [SetAttr inst name (succ_val v)]
      else if cb = 4 then [Raise (OtherError 0)]
      else if cb = 5 \<and> v = Data 10 then [SetAttr inst name (succ_val v)]
      else if cb = 8 \<and> v = Data 10 then [Raise (OtherError 1)]
      else [])"

definition example_callbacks :: callbacks where
  "example_callbacks =
     \<lparr>cb_name = (\<lambda>cb. if cb = 3 then None else Some ''callback''), cb_body = example_body\<rparr>"

text \<open>The example after \<^verbatim>\<open>subscribe(cb6, a, "celsius"); subscribe(cb7, a, "celsius")\<close>.\<close>

definition logged :: pystate where
  "logged = snd (subscribe 7 10 ''celsius'' (snd (subscribe 6 10 ''celsius'' temperature)))"

text \<open>
  The exception that \<^verbatim>\<open>__execute_callbacks\<close> raises when it finds \<open>observer\<close> in the
  guard: building the message reads \<^verbatim>\<open>observer.__name__\<close> first.
\<close>

definition reentry_error :: "callbacks \<Rightarrow> cbid \<Rightarrow> exn" where
  "reentry_error E observer =
     (case cb_name E observer of None \<Rightarrow> AttributeError | Some _ \<Rightarrow> ObservablePropertyError)"

text \<open>Two states with the same classes: no class was changed and no instance changed its class.\<close>

definition same_classes :: "pystate \<Rightarrow> pystate \<Rightarrow> bool" where
  "same_classes s s' \<longleftrightarrow>
     cls_dict s' = cls_dict s \<and> cls_mro s' = cls_mro s \<and> inst_cls s' = inst_cls s"




definition partial_subscribed :: pystate where
  "partial_subscribed = snd (subscribe 3 10 ''celsius'' temperature)"

text \<open>
  A second set of callbacks, none of which assigns: 4 raises, every other one only takes
  note.  Then the example with callback 4 subscribed after callback 6, and with callback
  8 subscribed after callback 6.
\<close>

definition raising_callbacks :: callbacks where
  "raising_callbacks =
     \<lparr>cb_name = (\<lambda>cb. Some ''callback''),
      cb_body = (\<lambda>cb inst name v. if cb = 4 then [Raise (OtherError 0)] else [])\<rparr>"

definition failing_subscribed :: pystate where
  "failing_subscribed = snd (subscribe 4 10 ''celsius'' (snd (subscribe 6 10 ''celsius'' temperature)))"

definition validator_subscribed :: pystate where
  "validator_subscribed = snd (subscribe 8 10 ''celsius'' (snd (subscribe 6 10 ''celsius'' temperature)))"

text \<open>
  The names of the list attributes that \<open>set_name\<close> puts on a class, and what it means
  for a class to declare an observable attribute.
\<close>

definition bookkeeping :: "string \<Rightarrow> bool" where
  "bookkeeping k \<longleftrightarrow> (\<exists>n. k = ''__'' @ n @ ''_subscribers'' \<or> k = ''__'' @ n @ ''_recursions'')"

definition declares :: "pystate \<Rightarrow> cid \<Rightarrow> string \<Rightarrow> bool" where
  "declares s c n = (case cls_dict s c n of Some (Obs d) \<Rightarrow> True | _ \<Rightarrow> False)"

text \<open>
  The list attributes come from declarations only: in every class dictionary, an entry
  that is not a list has no such name, and a subscriber list \<^verbatim>\<open>__n_subscribers\<close> stands
  beside an \<^verbatim>\<open>observable\<close> under \<open>n\<close>; no instance dictionary has an entry under such
  a name; and every class is in its own MRO.  (Inside a class body and inside methods
  Python mangles a name that starts with two underscores, so neither the class statement
  nor an accessor writes such a name.)  \<open>cls_ok\<close> is the part about one class.
\<close>

definition lists_declared :: "pystate \<Rightarrow> bool" where
  "lists_declared s \<longleftrightarrow>
     (\<forall>c k v. cls_dict s c k = Some v \<longrightarrow>
        ((\<forall>a. v \<noteq> ListRef a) \<longrightarrow> \<not> bookkeeping k) \<and>
        (\<forall>n. k = ''__'' @ n @ ''_subscribers'' \<longrightarrow> declares s c n)) \<and>
     (\<forall>i n. inst_dict s i (''__'' @ n @ ''_subscribers'') = None) \<and>
     (\<forall>c. c \<in> set (cls_mro s c))"

definition cls_ok :: "pystate \<Rightarrow> cid \<Rightarrow> bool" where
  "cls_ok s c \<longleftrightarrow>
     (\<forall>k v. cls_dict s c k = Some v \<longrightarrow>
        ((\<forall>a. v \<noteq> ListRef a) \<longrightarrow> \<not> bookkeeping k) \<and>
        (\<forall>n. k = ''__'' @ n @ ''_subscribers'' \<longrightarrow> declares s c n))"

text \<open>
  More of the example.  A callback 9 that copies every value it is told to the attribute
  of the same name of instance 20, subscribed for instance 10; the state \<open>logged\<close> after
  the assignment of 20 to \<^verbatim>\<open>celsius\<close> of instance 10, and the state after
  \<^verbatim>\<open>del a.celsius\<close> in it.
\<close>

definition mirror_body :: "cbid \<Rightarrow> oid \<Rightarrow> string \<Rightarrow> val \<Rightarrow> stmt list" where
  "mirror_body cb inst name v = (if cb = 9 then [SetAttr 20 name v] else [])"

definition mirror_callbacks :: callbacks where
  "mirror_callbacks = \<lparr>cb_name = (\<lambda>cb. Some ''callback''), cb_body = mirror_body\<rparr>"

definition mirror_subscribed :: pystate where
  "mirror_subscribed = snd (subscribe 9 10 ''celsius'' temperature)"

definition assigned :: pystate where
  "assigned =
     (case py_setattr 5 example_callbacks 10 ''celsius'' (Data 20) logged of
        Some (r, s) \<Rightarrow> s | None \<Rightarrow> logged)"

definition deleted :: pystate where
  "deleted =
     (case py_delattr 3 10 ''celsius'' assigned of Some (r, s) \<Rightarrow> s | None \<Rightarrow> assigned)"

section \<open>Basic properties of the model\<close>

declare execute_callbacks.simps(2) [simp del] run_observers.simps(2) [simp del]
  observable_set.simps(2) [simp del] observable_notify.simps(2) [simp del]
  py_setattr.simps(2) [simp del] exec_stmt.simps(2) [simp del] exec_stmts.simps(2) [simp del]

lemmas temperature_defs = temperature_def define_class_def new_instance_def init_state_def
  set_name_def new_observable_def class_hasattr_def class_setattr_def new_list_def celsius_def

lemma observable_at_temperature:
  "observable_at temperature 10 ''celsius'' celsius 0 1"
  "observable_at temperature 20 ''celsius'' celsius 0 1"
  by (simp_all add: observable_at_def type_lookup_def temperature_defs)

lemma heap_temperature: "heap temperature a = []"
  by (simp add: temperature_defs)

lemma py_getattr_heap [simp]: "py_getattr (s\<lparr>heap := h\<rparr>) inst n = py_getattr s inst n"
  by (simp add: py_getattr_def type_lookup_def property_get_def split: option.splits val.splits)

lemma py_getattr_calls [simp]: "py_getattr (s\<lparr>calls := c\<rparr>) inst n = py_getattr s inst n"
  by (simp add: py_getattr_def type_lookup_def property_get_def split: option.splits val.splits)

lemma observable_at_heap [simp]:
  "observable_at (s\<lparr>heap := h\<rparr>) inst name d sa ra = observable_at s inst name d sa ra"
  by (simp add: observable_at_def type_lookup_def)

lemma observable_at_calls [simp]:
  "observable_at (s\<lparr>calls := c\<rparr>) inst name d sa ra = observable_at s inst name d sa ra"
  by (simp add: observable_at_def type_lookup_def)

lemma getattr_subscribers:
  assumes "observable_at s inst name d sa ra"
  shows "py_getattr s inst (''__'' @ name @ ''_subscribers'') = Inr (ListRef sa)"
  using assms by (clarsimp simp add: observable_at_def py_getattr_def)

lemma getattr_lists:
  assumes "observable_at s inst name d sa ra"
  shows "py_getattr s inst (subscribers d) = Inr (ListRef sa)"
    and "py_getattr s inst (recursions d) = Inr (ListRef ra)"
  using assms by (clarsimp simp add: observable_at_def py_getattr_def)+

section \<open>Subscribing and unsubscribing\<close>

lemma unsubscribe_at:
  assumes "observable_at s inst name d sa ra"
  shows "unsubscribe callback inst name s =
           (if callback \<in> set (heap s sa)
            then (Inr True, s\<lparr>heap := (heap s)(sa := remove1 callback (heap s sa))\<rparr>)
            else (Inr False, s))"
  using getattr_subscribers [OF assms]
  by (simp add: unsubscribe_def py_hasattr_def)

lemma subscribe_at:
  assumes "observable_at s inst name d sa ra"
  shows "subscribe callback inst name s =
           (Inr (), s\<lparr>heap := (heap s)(sa := remove1 callback (heap s sa) @ [callback])\<rparr>)"
  using getattr_subscribers [OF assms]
  by (simp add: subscribe_def unsubscribe_def py_hasattr_def remove1_idem)

text \<open>
  C8.  For a declared observable attribute of an instance, \<open>unsubscribe\<close> returns
  \<^verbatim>\<open>True\<close> and removes exactly one entry equal to the callback (the first one) when
  the callback is in the subscriber list, and returns \<^verbatim>\<open>False\<close> and leaves the whole
  state as it is when the callback is not in the list.
\<close>

theorem unsubscribe_removes_one:
  assumes "observable_at s inst name d sa ra"
  shows "unsubscribe callback inst name s =
           (if callback \<in> set (heap s sa)
            then (Inr True, s\<lparr>heap := (heap s)(sa := remove1 callback (heap s sa))\<rparr>)
            else (Inr False, s))
         \<and> (callback \<in> set (heap s sa) \<longrightarrow>
              add_mset callback (mset (remove1 callback (heap s sa))) = mset (heap s sa))"
  using unsubscribe_at [OF assms] by simp

theorem unsubscribe_removes_one_witness:
  "observable_at (snd (subscribe 6 10 ''celsius'' temperature)) 10 ''celsius'' celsius 0 1
   \<and> heap (snd (subscribe 6 10 ''celsius'' temperature)) 0 = [6]
   \<and> fst (unsubscribe 6 10 ''celsius'' (snd (subscribe 6 10 ''celsius'' temperature))) = Inr True
   \<and> heap (snd (unsubscribe 6 10 ''celsius'' (snd (subscribe 6 10 ''celsius'' temperature)))) 0 = []
   \<and> unsubscribe 7 10 ''celsius'' (snd (subscribe 6 10 ''celsius'' temperature)) =
       (Inr False, snd (subscribe 6 10 ''celsius'' temperature))"
proof -
  have t: "observable_at temperature 10 ''celsius'' celsius 0 1"
    by (rule observable_at_temperature)
  have s: "snd (subscribe 6 10 ''celsius'' temperature) = temperature\<lparr>heap := (heap temperature)(0 := [6])\<rparr>"
    by (simp add: subscribe_at [OF t] heap_temperature)
  have h: "observable_at (snd (subscribe 6 10 ''celsius'' temperature)) 10 ''celsius'' celsius 0 1"
    using t by (simp add: s)
  show ?thesis
    using h unsubscribe_removes_one [OF h, of 6] unsubscribe_removes_one [OF h, of 7]
    by (simp add: s)
qed

text \<open>
  C4.  For a declared observable attribute of an instance, \<open>subscribe\<close> succeeds and
  replaces the subscriber list by the list without the first entry equal to the
  callback, followed by the callback: the callback is the last entry, and when the list
  had no duplicates before, it has none afterwards and holds the callback exactly once.
\<close>

theorem subscribe_moves_to_end:
  assumes "observable_at s inst name d sa ra"
  shows "subscribe callback inst name s =
           (Inr (), s\<lparr>heap := (heap s)(sa := remove1 callback (heap s sa) @ [callback])\<rparr>)
         \<and> last (remove1 callback (heap s sa) @ [callback]) = callback
         \<and> (distinct (heap s sa) \<longrightarrow>
              distinct (remove1 callback (heap s sa) @ [callback]) \<and>
              count_list (remove1 callback (heap s sa) @ [callback]) callback = 1)"
proof -
  have "subscribe callback inst name s =
           (Inr (), s\<lparr>heap := (heap s)(sa := remove1 callback (heap s sa) @ [callback])\<rparr>)"
    by (rule subscribe_at [OF assms])
  moreover have "last (remove1 callback (heap s sa) @ [callback]) = callback"
    by simp
  moreover have "distinct (remove1 callback (heap s sa) @ [callback])"
    and "count_list (remove1 callback (heap s sa) @ [callback]) callback = 1"
    if "distinct (heap s sa)"
  proof -
    from that have n: "callback \<notin> set (remove1 callback (heap s sa))" by simp
    from that n show "distinct (remove1 callback (heap s sa) @ [callback])"
      by simp
    from n have "count_list (remove1 callback (heap s sa)) callback = 0"
      by (simp only: count_list_0_iff not_False_eq_True)
    then show "count_list (remove1 callback (heap s sa) @ [callback]) callback = 1"
      by (simp only: count_list_append count_list.simps) simp
  qed
  ultimately show ?thesis by blast
qed

theorem subscribe_moves_to_end_witness:
  "observable_at (temperature\<lparr>heap := (heap temperature)(0 := [6, 2, 5])\<rparr>) 10 ''celsius'' celsius 0 1
   \<and> distinct [6, 2, 5 :: nat]
   \<and> fst (subscribe 6 10 ''celsius'' (temperature\<lparr>heap := (heap temperature)(0 := [6, 2, 5])\<rparr>)) = Inr ()
   \<and> heap (snd (subscribe 6 10 ''celsius''
        (temperature\<lparr>heap := (heap temperature)(0 := [6, 2, 5])\<rparr>))) 0 = [2, 5, 6]"
proof -
  have h: "observable_at (temperature\<lparr>heap := (heap temperature)(0 := [6, 2, 5])\<rparr>) 10 ''celsius'' celsius 0 1"
    unfolding observable_at_heap by (rule observable_at_temperature)
  show ?thesis
    using h subscribe_moves_to_end [OF h, of 6] by simp
qed

section \<open>Notification of well-behaved subscribers\<close>

lemma nth_notin_take:
  assumes "distinct xs" and "i < length xs"
  shows "xs ! i \<notin> set (take i xs)"
proof -
  from assms(2) have "xs = take i xs @ xs ! i # drop (Suc i) xs"
    by (rule id_take_nth_drop)
  with assms(1) have "distinct (take i xs @ xs ! i # drop (Suc i) xs)" by simp
  then show ?thesis by simp
qed

lemma exec_stmts_Nil: "0 < k \<Longrightarrow> exec_stmts k E [] s = Some (Inr (), s)"
  by (cases k) (simp_all add: exec_stmts.simps(2))

lemma execute_callbacks_step_passive:
  assumes "i < length (heap s sa)"
    and "heap s sa ! i \<notin> set (heap s ra)"
    and "cb_body E (heap s sa ! i) inst (observable_property d) v = []"
    and "0 < k"
  shows "execute_callbacks (Suc k) E d inst v (ListRef sa) (ListRef ra) i s =
         execute_callbacks k E d inst v (ListRef sa) (ListRef ra) (Suc i)
           (s\<lparr>heap := (heap s)(ra := heap s ra @ [heap s sa ! i]),
              calls := calls s @ [(heap s sa ! i, inst, observable_property d, v)]\<rparr>)"
  using assms by (subst execute_callbacks.simps(2)) (simp add: Let_def exec_stmts_Nil)

lemma execute_callbacks_passive:
  assumes "sa \<noteq> ra"
    and "distinct (heap s sa)"
    and "heap s ra = take i (heap s sa)"
    and "i + n \<le> length (heap s sa)"
    and "\<forall>cb \<in> set (take n (drop i (heap s sa))). cb_body E cb inst (observable_property d) v = []"
    and "0 < k"
  shows "execute_callbacks (k + n) E d inst v (ListRef sa) (ListRef ra) i s =
         execute_callbacks k E d inst v (ListRef sa) (ListRef ra) (i + n)
           (s\<lparr>heap := (heap s)(ra := take (i + n) (heap s sa)),
              calls := calls s @ map (\<lambda>cb. (cb, inst, observable_property d, v))
                                  (take n (drop i (heap s sa)))\<rparr>)"
  using assms
proof (induction n arbitrary: i s)
  case 0
  then have "(heap s)(ra := take i (heap s sa)) = heap s" by auto
  then show ?case by simp
next
  case (Suc n)
  let ?subs = "heap s sa"
  let ?o = "?subs ! i"
  from Suc.prems have i: "i < length ?subs" by simp
  have notin: "?o \<notin> set (heap s ra)"
    using Suc.prems(2,3) i by (simp add: nth_notin_take)
  have hd: "take (Suc n) (drop i ?subs) = ?o # take n (drop (Suc i) ?subs)"
    using i by (simp add: Cons_nth_drop_Suc [symmetric])
  have body: "cb_body E ?o inst (observable_property d) v = []"
    using Suc.prems(5) hd by simp
  let ?s2 = "s\<lparr>heap := (heap s)(ra := heap s ra @ [?o]),
                calls := calls s @ [(?o, inst, observable_property d, v)]\<rparr>"
  have "0 < k + n" using Suc.prems(6) by simp
  with i notin body
  have "execute_callbacks (Suc (k + n)) E d inst v (ListRef sa) (ListRef ra) i s =
        execute_callbacks (k + n) E d inst v (ListRef sa) (ListRef ra) (Suc i) ?s2"
    by (rule execute_callbacks_step_passive)
  then have step: "execute_callbacks (k + Suc n) E d inst v (ListRef sa) (ListRef ra) i s =
        execute_callbacks (k + n) E d inst v (ListRef sa) (ListRef ra) (Suc i) ?s2"
    by simp
  have heap2: "heap ?s2 sa = ?subs" using Suc.prems(1) by simp
  have rec2: "heap ?s2 ra = take (Suc i) ?subs"
    using Suc.prems(3) i by (simp add: take_Suc_conv_app_nth)
  have IH: "execute_callbacks (k + n) E d inst v (ListRef sa) (ListRef ra) (Suc i) ?s2 =
         execute_callbacks k E d inst v (ListRef sa) (ListRef ra) (Suc i + n)
           (?s2\<lparr>heap := (heap ?s2)(ra := take (Suc i + n) (heap ?s2 sa)),
              calls := calls ?s2 @ map (\<lambda>cb. (cb, inst, observable_property d, v))
                                  (take n (drop (Suc i) (heap ?s2 sa)))\<rparr>)"
  proof (rule Suc.IH)
    show "sa \<noteq> ra" by (rule Suc.prems(1))
    show "distinct (heap ?s2 sa)" using Suc.prems(2) heap2 by simp
    show "heap ?s2 ra = take (Suc i) (heap ?s2 sa)" using rec2 heap2 by simp
    show "Suc i + n \<le> length (heap ?s2 sa)" using Suc.prems(4) heap2 by simp
    show "\<forall>cb\<in>set (take n (drop (Suc i) (heap ?s2 sa))).
            cb_body E cb inst (observable_property d) v = []"
      using Suc.prems(5) hd heap2 by simp
    show "0 < k" by (rule Suc.prems(6))
  qed
  show ?case
  proof -
    have "?s2\<lparr>heap := (heap ?s2)(ra := take (Suc i + n) (heap ?s2 sa)),
              calls := calls ?s2 @ map (\<lambda>cb. (cb, inst, observable_property d, v))
                                  (take n (drop (Suc i) (heap ?s2 sa)))\<rparr> =
          s\<lparr>heap := (heap s)(ra := take (i + Suc n) (heap s sa)),
              calls := calls s @ map (\<lambda>cb. (cb, inst, observable_property d, v))
                                  (take (Suc n) (drop i (heap s sa)))\<rparr>"
      using Suc.prems(1) hd by simp
    with step IH show ?thesis by (simp only: add_Suc_shift)
  qed
qed

lemma execute_callbacks_end:
  assumes "length (heap s sa) \<le> i"
  shows "execute_callbacks (Suc k) E d inst v (ListRef sa) recs i s = Some (Inr (), s)"
  using assms by (simp add: execute_callbacks.simps(2))

lemma execute_callbacks_all_passive:
  assumes "sa \<noteq> ra"
    and "distinct (heap s sa)"
    and "heap s ra = []"
    and "\<forall>cb \<in> set (heap s sa). cb_body E cb inst (observable_property d) v = []"
  shows "execute_callbacks (Suc k + length (heap s sa)) E d inst v (ListRef sa) (ListRef ra) 0 s =
         Some (Inr (), s\<lparr>heap := (heap s)(ra := heap s sa),
              calls := calls s @ map (\<lambda>cb. (cb, inst, observable_property d, v)) (heap s sa)\<rparr>)"
proof -
  let ?s' = "s\<lparr>heap := (heap s)(ra := take (0 + length (heap s sa)) (heap s sa)),
              calls := calls s @ map (\<lambda>cb. (cb, inst, observable_property d, v))
                (take (length (heap s sa)) (drop 0 (heap s sa)))\<rparr>"
  have "execute_callbacks (Suc k + length (heap s sa)) E d inst v (ListRef sa) (ListRef ra) 0 s =
        execute_callbacks (Suc k) E d inst v (ListRef sa) (ListRef ra) (0 + length (heap s sa)) ?s'"
    using assms by (intro execute_callbacks_passive) simp_all
  also have "\<dots> = Some (Inr (), ?s')"
    using assms(1) by (intro execute_callbacks_end) simp
  finally show ?thesis by simp
qed

lemma observable_set_passive:
  assumes "observable_at s inst name d sa ra"
    and "fset d = Some f"
    and "heap s ra = []"
    and "distinct (heap s sa)"
    and "\<forall>cb \<in> set (heap s sa). cb_body E cb inst name v = []"
  shows "observable_set (Suc (Suc k) + length (heap s sa)) E d inst v s =
         Some (Inr (), s\<lparr>inst_dict := (inst_dict s)(inst := (inst_dict s inst)(f \<mapsto> v)),
              calls := calls s @ map (\<lambda>cb. (cb, inst, name, v)) (heap s sa)\<rparr>)"
proof -
  from assms(1) have ne: "sa \<noteq> ra" and nm: "observable_property d = name"
    by (simp_all add: observable_at_def)
  let ?s1 = "s\<lparr>inst_dict := (inst_dict s)(inst := (inst_dict s inst)(f \<mapsto> v))\<rparr>"
  have ps: "property_set d inst v s = (Inr (), ?s1)"
    using assms(2) by (simp add: property_set_def)
  have ex: "execute_callbacks (Suc k + length (heap ?s1 sa)) E d inst v (ListRef sa) (ListRef ra) 0 ?s1 =
         Some (Inr (), ?s1\<lparr>heap := (heap ?s1)(ra := heap ?s1 sa),
              calls := calls ?s1 @ map (\<lambda>cb. (cb, inst, observable_property d, v)) (heap ?s1 sa)\<rparr>)"
    using ne assms(3,4,5) nm by (intro execute_callbacks_all_passive) simp_all
  have "(heap s)(ra := []) = heap s" using assms(3) by auto
  then show ?thesis
    using getattr_lists [OF assms(1)] ps ex nm
    by (simp add: observable_set.simps(2) finally_clear_def)
qed

lemma logged_eq: "logged = temperature\<lparr>heap := (heap temperature)(0 := [6, 7])\<rparr>"
proof -
  have t: "observable_at temperature 10 ''celsius'' celsius 0 1"
    by (rule observable_at_temperature)
  have s: "snd (subscribe 6 10 ''celsius'' temperature) = temperature\<lparr>heap := (heap temperature)(0 := [6])\<rparr>"
    by (simp add: subscribe_at [OF t] heap_temperature)
  have h: "observable_at (temperature\<lparr>heap := (heap temperature)(0 := [6])\<rparr>) 10 ''celsius'' celsius 0 1"
    using t by simp
  show ?thesis
    by (simp add: logged_def s subscribe_at [OF h])
qed




section \<open>Assignments inside a notification cycle\<close>

lemma observable_at_store:
  assumes "f \<noteq> subscribers d" and "f \<noteq> recursions d"
  shows "observable_at (s\<lparr>inst_dict := (inst_dict s)(inst := (inst_dict s inst)(f \<mapsto> v))\<rparr>) inst name d sa ra
         = observable_at s inst name d sa ra"
  using assms by (auto simp add: observable_at_def type_lookup_def)

lemma observable_set_in_cycle:
  assumes "observable_at t inst name d sa ra"
    and "fset d = Some f"
    and "heap t sa \<noteq> []"
    and "hd (heap t sa) \<in> set (heap t ra)"
  shows "observable_set (Suc (Suc k)) E d inst w t =
         Some (Inl (reentry_error E (hd (heap t sa))),
               t\<lparr>inst_dict := (inst_dict t)(inst := (inst_dict t inst)(f \<mapsto> w)),
                  heap := (heap t)(ra := [])\<rparr>)"
proof -
  let ?t1 = "t\<lparr>inst_dict := (inst_dict t)(inst := (inst_dict t inst)(f \<mapsto> w))\<rparr>"
  have ps: "property_set d inst w t = (Inr (), ?t1)"
    using assms(2) by (simp add: property_set_def)
  have nth: "heap t sa ! 0 = hd (heap t sa)"
    using assms(3) by (simp add: hd_conv_nth)
  have ex: "execute_callbacks (Suc k) E d inst w (ListRef sa) (ListRef ra) 0 ?t1 =
        Some (Inl (reentry_error E (hd (heap t sa))), ?t1)"
    using assms(3,4) nth
    by (simp add: execute_callbacks.simps(2) reentry_error_def split: option.splits)
  show ?thesis
    using getattr_lists [OF assms(1)] ps ex
    by (simp add: observable_set.simps(2) finally_clear_def)
qed

lemma py_setattr_in_cycle:
  assumes "observable_at t inst name d sa ra"
    and "fset d = Some f"
    and "heap t sa \<noteq> []"
    and "hd (heap t sa) \<in> set (heap t ra)"
  shows "py_setattr (Suc (Suc (Suc k))) E inst name w t =
         Some (Inl (reentry_error E (hd (heap t sa))),
               t\<lparr>inst_dict := (inst_dict t)(inst := (inst_dict t inst)(f \<mapsto> w)),
                  heap := (heap t)(ra := [])\<rparr>)"
proof -
  have "type_lookup t inst name = Some (Obs d)"
    using assms(1) by (simp add: observable_at_def)
  then have "py_setattr (Suc (Suc (Suc k))) E inst name w t = observable_set (Suc (Suc k)) E d inst w t"
    by (simp add: py_setattr.simps(2))
  with observable_set_in_cycle [OF assms] show ?thesis by simp
qed

lemma execute_callbacks_step_raise:
  assumes "i < length (heap s sa)"
    and "heap s sa ! i \<notin> set (heap s ra)"
    and "exec_stmts k E (cb_body E (heap s sa ! i) inst (observable_property d) v)
           (s\<lparr>heap := (heap s)(ra := heap s ra @ [heap s sa ! i]),
              calls := calls s @ [(heap s sa ! i, inst, observable_property d, v)]\<rparr>) =
         Some (Inl e, s3)"
  shows "execute_callbacks (Suc k) E d inst v (ListRef sa) (ListRef ra) i s = Some (Inl e, s3)"
  using assms by (subst execute_callbacks.simps(2)) (simp add: Let_def)

lemma exec_assignment_in_cycle:
  assumes "observable_at t inst name d sa ra"
    and "fset d = Some f"
    and "heap t sa \<noteq> []"
    and "hd (heap t sa) \<in> set (heap t ra)"
  shows "exec_stmts (Suc (Suc (Suc (Suc (Suc k))))) E (SetAttr inst name w # rest) t =
         Some (Inl (reentry_error E (hd (heap t sa))),
               t\<lparr>inst_dict := (inst_dict t)(inst := (inst_dict t inst)(f \<mapsto> w)),
                  heap := (heap t)(ra := [])\<rparr>)"
  using py_setattr_in_cycle [OF assms, of k E w]
  by (simp add: exec_stmts.simps(2) exec_stmt.simps(2))

lemma reentrant_cycle:
  assumes oa: "observable_at s inst name d sa ra"
    and fs: "fset d = Some f"
    and fn: "f \<noteq> subscribers d" "f \<noteq> recursions d"
    and g: "heap s ra = []"
    and subs: "heap s sa = pre @ cb # post"
    and dist: "distinct (pre @ cb # post)"
    and pas: "\<forall>p \<in> set pre. cb_body E p inst name v = []"
    and body: "cb_body E cb inst name v = SetAttr inst name w # rest"
  shows "observable_set (Suc (Suc (Suc (Suc (Suc (Suc (Suc k)))))) + length pre) E d inst v s =
     Some (Inl (reentry_error E (hd (pre @ [cb]))),
           s\<lparr>inst_dict := (inst_dict s)(inst := (inst_dict s inst)(f \<mapsto> w)),
             calls := calls s @ map (\<lambda>c. (c, inst, name, v)) (pre @ [cb])\<rparr>)"
proof -
  from oa have ne: "sa \<noteq> ra" and nm: "observable_property d = name"
    by (simp_all add: observable_at_def)
  let ?K = "Suc (Suc (Suc (Suc (Suc k))))"
  let ?s1 = "s\<lparr>inst_dict := (inst_dict s)(inst := (inst_dict s inst)(f \<mapsto> v))\<rparr>"
  let ?s2 = "?s1\<lparr>heap := (heap ?s1)(ra := pre),
                calls := calls s @ map (\<lambda>c. (c, inst, name, v)) pre\<rparr>"
  let ?s3 = "?s2\<lparr>heap := (heap ?s2)(ra := pre @ [cb]),
                calls := calls s @ map (\<lambda>c. (c, inst, name, v)) (pre @ [cb])\<rparr>"
  let ?s4 = "?s3\<lparr>inst_dict := (inst_dict ?s3)(inst := (inst_dict ?s3 inst)(f \<mapsto> w)),
                heap := (heap ?s3)(ra := [])\<rparr>"
  let ?err = "reentry_error E (hd (pre @ [cb]))"
  have ps: "property_set d inst v s = (Inr (), ?s1)"
    using fs by (simp add: property_set_def)
  have A: "execute_callbacks (Suc ?K + length pre) E d inst v (ListRef sa) (ListRef ra) 0 ?s1 =
           execute_callbacks (Suc ?K) E d inst v (ListRef sa) (ListRef ra) (0 + length pre)
             (?s1\<lparr>heap := (heap ?s1)(ra := take (0 + length pre) (heap ?s1 sa)),
                calls := calls ?s1 @ map (\<lambda>c. (c, inst, observable_property d, v))
                  (take (length pre) (drop 0 (heap ?s1 sa)))\<rparr>)"
    using ne dist g subs pas nm by (intro execute_callbacks_passive) simp_all
  have A': "execute_callbacks (Suc ?K + length pre) E d inst v (ListRef sa) (ListRef ra) 0 ?s1 =
           execute_callbacks (Suc ?K) E d inst v (ListRef sa) (ListRef ra) (length pre) ?s2"
    unfolding A using subs nm by simp
  have oa3: "observable_at ?s3 inst name d sa ra"
    using oa fn by (simp add: observable_at_store)
  have h3: "heap ?s3 sa = pre @ cb # post" "heap ?s3 ra = pre @ [cb]"
    using ne subs by simp_all
  have hd3: "hd (heap ?s3 sa) = hd (pre @ [cb])"
    unfolding h3 by (cases pre) simp_all
  have in3: "hd (heap ?s3 sa) \<in> set (heap ?s3 ra)"
    unfolding hd3 h3 by (cases pre) simp_all
  have ne3: "heap ?s3 sa \<noteq> []" unfolding h3 by simp
  have nested: "exec_stmts ?K E (SetAttr inst name w # rest) ?s3 = Some (Inl ?err, ?s4)"
    using exec_assignment_in_cycle [OF oa3 fs ne3 in3, of k E w rest] hd3 by simp
  have B: "execute_callbacks (Suc ?K) E d inst v (ListRef sa) (ListRef ra) (length pre) ?s2 =
           Some (Inl ?err, ?s4)"
  proof -
    have i: "length pre < length (heap ?s2 sa)" using ne subs by simp
    have o: "heap ?s2 sa ! length pre = cb" using ne subs by simp
    have n: "cb \<notin> set (heap ?s2 ra)" using dist by simp
    have x: "exec_stmts ?K E (cb_body E (heap ?s2 sa ! length pre) inst (observable_property d) v)
           (?s2\<lparr>heap := (heap ?s2)(ra := heap ?s2 ra @ [heap ?s2 sa ! length pre]),
              calls := calls ?s2 @ [(heap ?s2 sa ! length pre, inst, observable_property d, v)]\<rparr>) =
         Some (Inl ?err, ?s4)"
      unfolding o nm body using nested by simp
    from i n [folded o] x show ?thesis by (rule execute_callbacks_step_raise)
  qed
  have fin: "finally_clear (ListRef ra) (Inl ?err, ?s4) =
      (Inl ?err, s\<lparr>inst_dict := (inst_dict s)(inst := (inst_dict s inst)(f \<mapsto> w)),
             calls := calls s @ map (\<lambda>c. (c, inst, name, v)) (pre @ [cb])\<rparr>)"
  proof -
    have "(heap s)(ra := []) = heap s" using g by auto
    then show ?thesis by (simp add: finally_clear_def)
  qed
  have "observable_set (Suc (Suc ?K + length pre)) E d inst v s =
        map_option (finally_clear (ListRef ra))
          (execute_callbacks (Suc ?K + length pre) E d inst v (ListRef sa) (ListRef ra) 0 ?s1)"
    using getattr_lists [OF oa] ps by (simp add: observable_set.simps(2))
  also have "\<dots> = Some (finally_clear (ListRef ra) (Inl ?err, ?s4))"
    unfolding A' B by simp
  finally show ?thesis unfolding fin by simp
qed

section \<open>No operation changes a class\<close>

lemma same_classes_refl [simp]: "same_classes s s"
  by (simp add: same_classes_def)

lemma same_classes_trans: "same_classes s t \<Longrightarrow> same_classes t u \<Longrightarrow> same_classes s u"
  by (simp add: same_classes_def)

lemma same_classes_upd [simp]:
  "same_classes s (t\<lparr>heap := h\<rparr>) = same_classes s t"
  "same_classes s (t\<lparr>calls := c\<rparr>) = same_classes s t"
  "same_classes s (t\<lparr>inst_dict := m\<rparr>) = same_classes s t"
  "same_classes (t\<lparr>heap := h\<rparr>) s = same_classes t s"
  "same_classes (t\<lparr>calls := c\<rparr>) s = same_classes t s"
  "same_classes (t\<lparr>inst_dict := m\<rparr>) s = same_classes t s"
  by (simp_all add: same_classes_def)

lemma unsubscribe_same_classes: "unsubscribe cb inst n s = (r, s') \<Longrightarrow> same_classes s s'"
  by (auto simp: unsubscribe_def Let_def split: if_splits sum.splits val.splits)

lemma subscribe_same_classes: "subscribe cb inst n s = (r, s') \<Longrightarrow> same_classes s s'"
  by (auto simp: subscribe_def Let_def split: prod.splits sum.splits val.splits
      dest!: unsubscribe_same_classes)

lemma property_set_same_classes: "property_set d inst v s = (r, s') \<Longrightarrow> same_classes s s'"
  by (auto simp: property_set_def split: option.splits)

lemma property_delete_same_classes: "property_delete d inst s = (r, s') \<Longrightarrow> same_classes s s'"
  by (auto simp: property_delete_def split: option.splits)

lemma instance_delattr_same_classes: "instance_delattr inst n s = (r, s') \<Longrightarrow> same_classes s s'"
  by (auto simp: instance_delattr_def split: option.splits)

lemma finally_clear_same_classes: "finally_clear recs (r, s) = (r', s') \<Longrightarrow> same_classes s s'"
  by (auto simp: finally_clear_def split: val.splits)

lemma delete_same_classes_aux:
  "(\<forall>inst n s r s'. py_delattr k inst n s = Some (r, s') \<longrightarrow> same_classes s s') \<and>
   (\<forall>d inst s r s'. observable_delete k d inst s = Some (r, s') \<longrightarrow> same_classes s s')"
proof (induction k)
  case 0
  show ?case by simp
next
  case (Suc k)
  then have IH1: "\<And>inst n s r s'. py_delattr k inst n s = Some (r, s') \<Longrightarrow> same_classes s s'"
    and IH2: "\<And>d inst s r s'. observable_delete k d inst s = Some (r, s') \<Longrightarrow> same_classes s s'"
    by blast+
  have A: "same_classes s s'" if "py_delattr (Suc k) inst n s = Some (r, s')" for inst n s r s'
    using that
    by (auto split: option.splits val.splits dest: IH2 instance_delattr_same_classes)
  have B: "same_classes s s'" if "observable_delete (Suc k) d inst s = Some (r, s')" for d inst s r s'
    using that
    by (auto split: prod.splits sum.splits option.splits
        dest!: IH1 property_delete_same_classes intro: same_classes_trans)
  from A B show ?case by blast
qed

lemma py_delattr_same_classes: "py_delattr k inst n s = Some (r, s') \<Longrightarrow> same_classes s s'"
  using delete_same_classes_aux by blast

lemma interpreter_same_classes_aux:
  "(\<forall>E d inst v subs recs i s r s'.
      execute_callbacks k E d inst v subs recs i s = Some (r, s') \<longrightarrow> same_classes s s') \<and>
   (\<forall>E d inst v s r s'. run_observers k E d inst v s = Some (r, s') \<longrightarrow> same_classes s s') \<and>
   (\<forall>E d inst v s r s'. observable_set k E d inst v s = Some (r, s') \<longrightarrow> same_classes s s') \<and>
   (\<forall>E inst n s r s'. observable_notify k E inst n s = Some (r, s') \<longrightarrow> same_classes s s') \<and>
   (\<forall>E inst n v s r s'. py_setattr k E inst n v s = Some (r, s') \<longrightarrow> same_classes s s') \<and>
   (\<forall>E st s r s'. exec_stmt k E st s = Some (r, s') \<longrightarrow> same_classes s s') \<and>
   (\<forall>E sts s r s'. exec_stmts k E sts s = Some (r, s') \<longrightarrow> same_classes s s')"
proof (induction k)
  case 0
  show ?case by simp
next
  case (Suc k)
  have IH1: "\<And>E d inst v subs recs i s r s'.
      execute_callbacks k E d inst v subs recs i s = Some (r, s') \<Longrightarrow> same_classes s s'"
    using Suc.IH by simp
  have IH2: "\<And>E d inst v s r s'. run_observers k E d inst v s = Some (r, s') \<Longrightarrow> same_classes s s'"
    using Suc.IH by simp
  have IH3: "\<And>E d inst v s r s'. observable_set k E d inst v s = Some (r, s') \<Longrightarrow> same_classes s s'"
    using Suc.IH by simp
  have IH4: "\<And>E inst n s r s'. observable_notify k E inst n s = Some (r, s') \<Longrightarrow> same_classes s s'"
    using Suc.IH by simp
  have IH5: "\<And>E inst n v s r s'. py_setattr k E inst n v s = Some (r, s') \<Longrightarrow> same_classes s s'"
    using Suc.IH by simp
  have IH6: "\<And>E st s r s'. exec_stmt k E st s = Some (r, s') \<Longrightarrow> same_classes s s'"
    using Suc.IH by simp
  have IH7: "\<And>E sts s r s'. exec_stmts k E sts s = Some (r, s') \<Longrightarrow> same_classes s s'"
    using Suc.IH by simp
  have A1: "same_classes s s'"
    if "execute_callbacks (Suc k) E d inst v subs recs i s = Some (r, s')"
    for E d inst v subs recs i s r s'
    using that
    by (auto simp: execute_callbacks.simps(2) Let_def
        split: val.splits if_splits option.splits prod.splits sum.splits
        dest!: IH1 IH7 intro: same_classes_trans)
  have A2: "same_classes s s'" if "run_observers (Suc k) E d inst v s = Some (r, s')"
    for E d inst v s r s'
    using that
    by (auto simp: run_observers.simps(2) split: sum.splits
        dest!: IH1 finally_clear_same_classes intro: same_classes_trans)
  have A3: "same_classes s s'" if "observable_set (Suc k) E d inst v s = Some (r, s')"
    for E d inst v s r s'
    using that
    by (auto simp: observable_set.simps(2) split: sum.splits prod.splits
        dest!: IH1 finally_clear_same_classes property_set_same_classes intro: same_classes_trans)
  have A4: "same_classes s s'" if "observable_notify (Suc k) E inst n s = Some (r, s')"
    for E inst n s r s'
    using that
    by (auto simp: observable_notify.simps(2) split: sum.splits option.splits val.splits dest!: IH2)
  have A5: "same_classes s s'" if "py_setattr (Suc k) E inst n v s = Some (r, s')"
    for E inst n v s r s'
    using that
    by (auto simp: py_setattr.simps(2) instance_setattr_def split: option.splits val.splits dest!: IH3)
  have A6: "same_classes s s'" if "exec_stmt (Suc k) E st s = Some (r, s')"
    for E st s r s'
    using that
    by (auto simp: exec_stmt.simps(2) split: stmt.splits option.splits prod.splits sum.splits
        dest!: IH5 IH4 IH7 py_delattr_same_classes subscribe_same_classes unsubscribe_same_classes)
  have A7: "same_classes s s'" if "exec_stmts (Suc k) E sts s = Some (r, s')"
    for E sts s r s'
    using that
    by (auto simp: exec_stmts.simps(2) split: list.splits option.splits prod.splits sum.splits
        dest!: IH6 IH7 intro: same_classes_trans)
  from A1 A2 A3 A4 A5 A6 A7 show ?case by blast
qed


lemma py_setattr_same_classes: "py_setattr k E inst n v s = Some (r, s') \<Longrightarrow> same_classes s s'"
  using interpreter_same_classes_aux [of k] by simp

lemma observable_notify_same_classes:
  "observable_notify k E inst n s = Some (r, s') \<Longrightarrow> same_classes s s'"
  using interpreter_same_classes_aux [of k] by simp

section \<open>Re-entrant assignments\<close>

lemma py_setattr_observable:
  assumes "observable_at s inst name d sa ra"
  shows "py_setattr (Suc k) E inst name v s = observable_set k E d inst v s"
  using assms by (simp add: py_setattr.simps(2) observable_at_def)

lemma py_setattr_reentrant_cycle:
  assumes "observable_at s inst name d sa ra"
    and "fset d = Some f"
    and "f \<noteq> subscribers d" "f \<noteq> recursions d"
    and "heap s ra = []"
    and "heap s sa = pre @ cb # post"
    and "distinct (pre @ cb # post)"
    and "\<forall>p \<in> set pre. cb_body E p inst name v = []"
    and "cb_body E cb inst name v = SetAttr inst name w # rest"
  shows "py_setattr (k + length pre + 8) E inst name v s =
     Some (Inl (reentry_error E (hd (pre @ [cb]))),
           s\<lparr>inst_dict := (inst_dict s)(inst := (inst_dict s inst)(f \<mapsto> w)),
             calls := calls s @ map (\<lambda>c. (c, inst, name, v)) (pre @ [cb])\<rparr>)"
proof -
  have e: "k + length pre + 8 = Suc (Suc (Suc (Suc (Suc (Suc (Suc (Suc k)))))) + length pre)"
    by simp
  show ?thesis
    unfolding e py_setattr_observable [OF assms(1)] by (rule reentrant_cycle [OF assms])
qed

lemma py_setattr_passive:
  assumes "observable_at s inst name d sa ra"
    and "fset d = Some f"
    and "heap s ra = []"
    and "distinct (heap s sa)"
    and "\<forall>cb \<in> set (heap s sa). cb_body E cb inst name v = []"
  shows "py_setattr (k + length (heap s sa) + 3) E inst name v s =
         Some (Inr (), s\<lparr>inst_dict := (inst_dict s)(inst := (inst_dict s inst)(f \<mapsto> v)),
              calls := calls s @ map (\<lambda>cb. (cb, inst, name, v)) (heap s sa)\<rparr>)"
proof -
  have e: "k + length (heap s sa) + 3 = Suc (Suc (Suc k) + length (heap s sa))" by simp
  show ?thesis
    unfolding e py_setattr_observable [OF assms(1)] by (rule observable_set_passive [OF assms])
qed


lemma subscribe_twice_temperature:
  "snd (subscribe b 10 ''celsius'' (snd (subscribe a 10 ''celsius'' temperature))) =
   temperature\<lparr>heap := (heap temperature)(0 := remove1 b [a] @ [b])\<rparr>"
proof -
  have t: "observable_at temperature 10 ''celsius'' celsius 0 1"
    by (rule observable_at_temperature)
  have s: "snd (subscribe a 10 ''celsius'' temperature) = temperature\<lparr>heap := (heap temperature)(0 := [a])\<rparr>"
    by (simp add: subscribe_at [OF t] heap_temperature)
  have h: "observable_at (temperature\<lparr>heap := (heap temperature)(0 := [a])\<rparr>) 10 ''celsius'' celsius 0 1"
    using t by simp
  show ?thesis
    unfolding s subscribe_at [OF h] by simp
qed



lemma partial_subscribed_eq:
  "partial_subscribed = temperature\<lparr>heap := (heap temperature)(0 := [3])\<rparr>"
  unfolding partial_subscribed_def
  by (simp add: subscribe_at [OF observable_at_temperature(1)] heap_temperature)

lemma celsius_fields:
  "fset celsius = Some ''_celsius''" "fget celsius = Some ''_celsius''"
  "fdel celsius = Some ''_celsius''"
  "''_celsius'' \<noteq> subscribers celsius" "''_celsius'' \<noteq> recursions celsius"
  by (simp_all add: celsius_def)

lemma temperature_fields:
  "calls temperature = []" "inst_dict temperature i = Map.empty"
  by (simp_all add: temperature_defs)






text \<open>
  C10.  The same cycle when the subscriber that \<^verbatim>\<open>__execute_callbacks\<close> finds in the
  guard (the first of the list) has no \<^verbatim>\<open>__name__\<close>: building the error message fails,
  and both the nested and the original assignment raise \<^verbatim>\<open>AttributeError\<close> instead of
  \<^verbatim>\<open>ObservablePropertyError\<close>.
\<close>

theorem nameless_callback_attribute_error:
  assumes "observable_at s inst name d sa ra"
    and "fset d = Some f"
    and "f \<noteq> subscribers d" and "f \<noteq> recursions d"
    and "heap s ra = []"
    and "heap s sa = pre @ cb # post"
    and "distinct (pre @ cb # post)"
    and "\<forall>p \<in> set pre. cb_body E p inst name v = []"
    and "cb_body E cb inst name v = SetAttr inst name w # rest"
    and "cb_name E (hd (pre @ [cb])) = None"
  shows "py_setattr (k + 3) E inst name w
           (s\<lparr>inst_dict := (inst_dict s)(inst := (inst_dict s inst)(f \<mapsto> v)),
              heap := (heap s)(ra := pre @ [cb]),
              calls := calls s @ map (\<lambda>c. (c, inst, name, v)) (pre @ [cb])\<rparr>) =
         Some (Inl AttributeError,
           s\<lparr>inst_dict := (inst_dict s)(inst := (inst_dict s inst)(f \<mapsto> w)),
              calls := calls s @ map (\<lambda>c. (c, inst, name, v)) (pre @ [cb])\<rparr>)
       \<and> py_setattr (k + length pre + 8) E inst name v s =
         Some (Inl AttributeError,
           s\<lparr>inst_dict := (inst_dict s)(inst := (inst_dict s inst)(f \<mapsto> w)),
              calls := calls s @ map (\<lambda>c. (c, inst, name, v)) (pre @ [cb])\<rparr>)"
proof -
  let ?t = "s\<lparr>inst_dict := (inst_dict s)(inst := (inst_dict s inst)(f \<mapsto> v)),
              heap := (heap s)(ra := pre @ [cb]),
              calls := calls s @ map (\<lambda>c. (c, inst, name, v)) (pre @ [cb])\<rparr>"
  let ?s' = "s\<lparr>inst_dict := (inst_dict s)(inst := (inst_dict s inst)(f \<mapsto> w)),
              calls := calls s @ map (\<lambda>c. (c, inst, name, v)) (pre @ [cb])\<rparr>"
  from assms(1) have ne: "sa \<noteq> ra" by (simp add: observable_at_def)
  have err: "reentry_error E (hd (pre @ [cb])) = AttributeError"
    using assms(10) by (simp add: reentry_error_def)
  have oat: "observable_at ?t inst name d sa ra"
    using assms(1,3,4) by (simp add: observable_at_store)
  have ht: "heap ?t sa = pre @ cb # post" "heap ?t ra = pre @ [cb]"
    using ne assms(6) by simp_all
  have hdt: "hd (heap ?t sa) = hd (pre @ [cb])" unfolding ht by (cases pre) simp_all
  have "heap ?t sa \<noteq> []" unfolding ht by simp
  moreover have "hd (heap ?t sa) \<in> set (heap ?t ra)" unfolding hdt ht by (cases pre) simp_all
  ultimately have "py_setattr (Suc (Suc (Suc k))) E inst name w ?t =
      Some (Inl (reentry_error E (hd (heap ?t sa))),
            ?t\<lparr>inst_dict := (inst_dict ?t)(inst := (inst_dict ?t inst)(f \<mapsto> w)),
               heap := (heap ?t)(ra := [])\<rparr>)"
    using oat assms(2) by (intro py_setattr_in_cycle)
  moreover have "(heap s)(ra := []) = heap s" using assms(5) by auto
  ultimately have nested: "py_setattr (k + 3) E inst name w ?t = Some (Inl AttributeError, ?s')"
    unfolding hdt err by (simp add: numeral_3_eq_3)
  have outer: "py_setattr (k + length pre + 8) E inst name v s = Some (Inl AttributeError, ?s')"
    using py_setattr_reentrant_cycle [OF assms(1-9), of k] err by simp
  from nested outer show ?thesis by blast
qed

theorem nameless_callback_attribute_error_witness:
  "observable_at partial_subscribed 10 ''celsius'' celsius 0 1
   \<and> heap partial_subscribed 1 = []
   \<and> heap partial_subscribed 0 = [3]
   \<and> cb_body example_callbacks 3 10 ''celsius'' (Data 10) = [SetAttr 10 ''celsius'' (Data 11)]
   \<and> cb_name example_callbacks 3 = None
   \<and> py_setattr 8 example_callbacks 10 ''celsius'' (Data 10) partial_subscribed =
       Some (Inl AttributeError,
         partial_subscribed\<lparr>inst_dict := (inst_dict partial_subscribed)(10 := [''_celsius'' \<mapsto> Data 11]),
           calls := [(3, 10, ''celsius'', Data 10)]\<rparr>)"
proof -
  have oa: "observable_at partial_subscribed 10 ''celsius'' celsius 0 1"
    unfolding partial_subscribed_eq observable_at_heap by (rule observable_at_temperature)
  have g: "heap partial_subscribed 1 = []" by (simp add: partial_subscribed_eq heap_temperature)
  have l: "heap partial_subscribed 0 = [] @ 3 # []" by (simp add: partial_subscribed_eq)
  have d: "distinct ([] @ 3 # ([] :: nat list))" by simp
  have p: "\<forall>p \<in> set []. cb_body example_callbacks p 10 ''celsius'' (Data 10) = []"
    by simp
  have b: "cb_body example_callbacks 3 10 ''celsius'' (Data 10) = SetAttr 10 ''celsius'' (Data 11) # []"
    by (simp add: example_callbacks_def example_body_def)
  have n: "cb_name example_callbacks (hd ([] @ [3])) = None"
    by (simp add: example_callbacks_def)
  have i: "inst_dict partial_subscribed 10 = Map.empty" "calls partial_subscribed = []"
    by (simp_all add: partial_subscribed_eq temperature_fields)
  show ?thesis
    using oa g l b n
      nameless_callback_attribute_error [OF oa celsius_fields(1) celsius_fields(4,5) g l d p b n, of 0]
    by (simp add: i)
qed

section \<open>The guard after a cycle, and the stored value\<close>

lemma exec_stmts_Raise:
  "exec_stmts (Suc (Suc k)) E (Raise e # rest) s = Some (Inl e, s)"
  by (simp add: exec_stmts.simps(2) exec_stmt.simps(2))

lemma raising_cycle:
  assumes oa: "observable_at s inst name d sa ra"
    and fs: "fset d = Some f"
    and g: "heap s ra = []"
    and subs: "heap s sa = pre @ cb # post"
    and dist: "distinct (pre @ cb # post)"
    and pas: "\<forall>p \<in> set pre. cb_body E p inst name v = []"
    and body: "cb_body E cb inst name v = Raise e # rest"
  shows "py_setattr (k + length pre + 5) E inst name v s =
     Some (Inl e,
           s\<lparr>inst_dict := (inst_dict s)(inst := (inst_dict s inst)(f \<mapsto> v)),
             calls := calls s @ map (\<lambda>c. (c, inst, name, v)) (pre @ [cb])\<rparr>)"
proof -
  from oa have ne: "sa \<noteq> ra" and nm: "observable_property d = name"
    by (simp_all add: observable_at_def)
  let ?K = "Suc (Suc k)"
  let ?s1 = "s\<lparr>inst_dict := (inst_dict s)(inst := (inst_dict s inst)(f \<mapsto> v))\<rparr>"
  let ?s2 = "?s1\<lparr>heap := (heap ?s1)(ra := pre),
                calls := calls s @ map (\<lambda>c. (c, inst, name, v)) pre\<rparr>"
  let ?s3 = "?s2\<lparr>heap := (heap ?s2)(ra := pre @ [cb]),
                calls := calls s @ map (\<lambda>c. (c, inst, name, v)) (pre @ [cb])\<rparr>"
  have ps: "property_set d inst v s = (Inr (), ?s1)"
    using fs by (simp add: property_set_def)
  have A: "execute_callbacks (Suc ?K + length pre) E d inst v (ListRef sa) (ListRef ra) 0 ?s1 =
           execute_callbacks (Suc ?K) E d inst v (ListRef sa) (ListRef ra) (0 + length pre)
             (?s1\<lparr>heap := (heap ?s1)(ra := take (0 + length pre) (heap ?s1 sa)),
                calls := calls ?s1 @ map (\<lambda>c. (c, inst, observable_property d, v))
                  (take (length pre) (drop 0 (heap ?s1 sa)))\<rparr>)"
    using ne dist g subs pas nm by (intro execute_callbacks_passive) simp_all
  have A': "execute_callbacks (Suc ?K + length pre) E d inst v (ListRef sa) (ListRef ra) 0 ?s1 =
           execute_callbacks (Suc ?K) E d inst v (ListRef sa) (ListRef ra) (length pre) ?s2"
    unfolding A using subs nm by simp
  have B: "execute_callbacks (Suc ?K) E d inst v (ListRef sa) (ListRef ra) (length pre) ?s2 =
           Some (Inl e, ?s3)"
  proof -
    have i: "length pre < length (heap ?s2 sa)" using ne subs by simp
    have o: "heap ?s2 sa ! length pre = cb" using ne subs by simp
    have n: "cb \<notin> set (heap ?s2 ra)" using dist by simp
    have x: "exec_stmts ?K E (cb_body E (heap ?s2 sa ! length pre) inst (observable_property d) v)
           (?s2\<lparr>heap := (heap ?s2)(ra := heap ?s2 ra @ [heap ?s2 sa ! length pre]),
              calls := calls ?s2 @ [(heap ?s2 sa ! length pre, inst, observable_property d, v)]\<rparr>) =
         Some (Inl e, ?s3)"
      unfolding o nm body exec_stmts_Raise by simp
    from i n [folded o] x show ?thesis by (rule execute_callbacks_step_raise)
  qed
  have fin: "finally_clear (ListRef ra) (Inl e, ?s3) =
      (Inl e, s\<lparr>inst_dict := (inst_dict s)(inst := (inst_dict s inst)(f \<mapsto> v)),
             calls := calls s @ map (\<lambda>c. (c, inst, name, v)) (pre @ [cb])\<rparr>)"
  proof -
    have "(heap s)(ra := []) = heap s" using g by auto
    then show ?thesis by (simp add: finally_clear_def)
  qed
  have e: "k + length pre + 5 = Suc (Suc (Suc ?K + length pre))" by simp
  have "py_setattr (k + length pre + 5) E inst name v s =
        map_option (finally_clear (ListRef ra))
          (execute_callbacks (Suc ?K + length pre) E d inst v (ListRef sa) (ListRef ra) 0 ?s1)"
    unfolding e py_setattr_observable [OF oa]
    using getattr_lists [OF oa] ps by (simp add: observable_set.simps(2))
  also have "\<dots> = Some (finally_clear (ListRef ra) (Inl e, ?s3))"
    unfolding A' B by simp
  finally show ?thesis unfolding fin by simp
qed

lemma py_setattr_cleared:
  assumes "observable_at s inst name d sa ra"
    and "py_setattr k E inst name v s = Some (r, s1)"
  shows "heap s1 ra = []"
proof -
  from assms(2) obtain k1 where k1: "k = Suc k1" by (cases k) simp_all
  from assms(1) have tl: "type_lookup s inst name = Some (Obs d)" by (simp add: observable_at_def)
  from assms(2) have os: "observable_set k1 E d inst v s = Some (r, s1)"
    unfolding k1 by (simp add: py_setattr.simps(2) tl)
  then obtain k2 where k2: "k1 = Suc k2" by (cases k1) simp_all
  from os obtain out where "finally_clear (ListRef ra) out = (r, s1)"
    unfolding k2 using getattr_lists [OF assms(1)]
    by (auto simp: observable_set.simps(2))
  then show ?thesis
    by (cases out) (auto simp: finally_clear_def)
qed

lemma observable_notify_cleared:
  assumes "observable_at s inst name d sa ra"
    and "cls_dict s (inst_cls s inst) name = Some (Obs d)"
    and "py_getattr s inst name = Inr w"
    and "observable_notify k E inst name s = Some (r, s1)"
  shows "heap s1 ra = []"
proof -
  from assms(4) obtain k1 where k1: "k = Suc k1" by (cases k) simp_all
  from assms(4) have ro: "run_observers k1 E d inst w s = Some (r, s1)"
    unfolding k1 using assms(2,3)
    by (simp add: observable_notify.simps(2))
  then obtain k2 where k2: "k1 = Suc k2" by (cases k1) simp_all
  from ro obtain out where "finally_clear (ListRef ra) out = (r, s1)"
    unfolding k2 using getattr_lists [OF assms(1)]
    by (auto simp: run_observers.simps(2))
  then show ?thesis
    by (cases out) (auto simp: finally_clear_def)
qed

lemma observable_at_same_classes:
  assumes "observable_at s inst name d sa ra"
    and "same_classes s s1"
    and "inst_dict s1 inst (subscribers d) = None"
    and "inst_dict s1 inst (recursions d) = None"
  shows "observable_at s1 inst name d sa ra"
  using assms by (clarsimp simp add: observable_at_def same_classes_def type_lookup_def)

lemma guard_cleared_core:
  assumes "observable_at s inst name d sa ra"
  shows "(py_setattr k E inst name v s = Some (r, s1) \<longrightarrow> heap s1 ra = [])
       \<and> (cls_dict s (inst_cls s inst) name = Some (Obs d) \<longrightarrow>
            py_getattr s inst name = Inr w \<longrightarrow>
            observable_notify k E inst name s = Some (r, s1) \<longrightarrow> heap s1 ra = [])
       \<and> (py_setattr k E inst name v s = Some (Inl e, s1) \<longrightarrow>
            inst_dict s1 inst (subscribers d) = None \<longrightarrow>
            inst_dict s1 inst (recursions d) = None \<longrightarrow>
            fset d = Some f \<longrightarrow>
            distinct (heap s1 sa) \<longrightarrow>
            (\<forall>cb \<in> set (heap s1 sa). cb_body E cb inst name v2 = []) \<longrightarrow>
            py_setattr (j + length (heap s1 sa) + 3) E inst name v2 s1 =
              Some (Inr (), s1\<lparr>inst_dict := (inst_dict s1)(inst := (inst_dict s1 inst)(f \<mapsto> v2)),
                calls := calls s1 @ map (\<lambda>cb. (cb, inst, name, v2)) (heap s1 sa)\<rparr>))"
proof (intro conjI impI)
  assume "py_setattr k E inst name v s = Some (r, s1)"
  with assms show "heap s1 ra = []" by (rule py_setattr_cleared)
next
  assume "cls_dict s (inst_cls s inst) name = Some (Obs d)"
    and "py_getattr s inst name = Inr w"
    and "observable_notify k E inst name s = Some (r, s1)"
  with assms show "heap s1 ra = []" by (rule observable_notify_cleared)
next
  assume run: "py_setattr k E inst name v s = Some (Inl e, s1)"
    and sh: "inst_dict s1 inst (subscribers d) = None" "inst_dict s1 inst (recursions d) = None"
    and fs: "fset d = Some f"
    and di: "distinct (heap s1 sa)"
    and pa: "\<forall>cb \<in> set (heap s1 sa). cb_body E cb inst name v2 = []"
  from run have "same_classes s s1" by (rule py_setattr_same_classes)
  with assms have oa: "observable_at s1 inst name d sa ra"
    using sh by (rule observable_at_same_classes)
  from assms run have g: "heap s1 ra = []" by (rule py_setattr_cleared)
  show "py_setattr (j + length (heap s1 sa) + 3) E inst name v2 s1 =
      Some (Inr (), s1\<lparr>inst_dict := (inst_dict s1)(inst := (inst_dict s1 inst)(f \<mapsto> v2)),
        calls := calls s1 @ map (\<lambda>cb. (cb, inst, name, v2)) (heap s1 sa)\<rparr>)"
    using oa fs g di pa by (rule py_setattr_passive)
qed

lemma finally_clear_inst_dict:
  "finally_clear recs (r, s) = (r', s') \<Longrightarrow> inst_dict s' = inst_dict s"
  by (auto simp: finally_clear_def split: val.splits)

lemma execute_callbacks_no_call:
  assumes "\<not> (\<exists>sa ra. subs = ListRef sa \<and> recs = ListRef ra \<and> i < length (heap s sa)
                  \<and> heap s sa ! i \<notin> set (heap s ra))"
    and "execute_callbacks (Suc k) E d inst v subs recs i s = Some (r, s')"
  shows "s' = s"
proof (cases subs)
  case (ListRef sa)
  show ?thesis
  proof (cases "i < length (heap s sa)")
    case False
    with assms(2) ListRef show ?thesis by (simp add: execute_callbacks.simps(2))
  next
    case True
    note i = this
    show ?thesis
    proof (cases recs)
      case (ListRef ra)
      with assms(1) i \<open>subs = ListRef sa\<close> have "heap s sa ! i \<in> set (heap s ra)" by simp
      with assms(2) i ListRef \<open>subs = ListRef sa\<close> show ?thesis
        by (cases "cb_name E (heap s sa ! i)") (simp_all add: execute_callbacks.simps(2) Let_def)
    next
      case (Data x)
      with assms(2) i \<open>subs = ListRef sa\<close> show ?thesis
        by (simp add: execute_callbacks.simps(2) Let_def)
    next
      case (Obs x)
      with assms(2) i \<open>subs = ListRef sa\<close> show ?thesis
        by (simp add: execute_callbacks.simps(2) Let_def)
    qed
  qed
next
  case (Data x)
  with assms(2) show ?thesis by (simp add: execute_callbacks.simps(2))
next
  case (Obs x)
  with assms(2) show ?thesis by (simp add: execute_callbacks.simps(2))
qed

lemma execute_callbacks_keeps_field:
  assumes "\<And>cb k t r t'. exec_stmts k E (cb_body E cb inst (observable_property d) v) t = Some (r, t')
             \<Longrightarrow> inst_dict t' inst f = inst_dict t inst f"
    and "execute_callbacks k E d inst v subs recs i s = Some (r, s')"
  shows "inst_dict s' inst f = inst_dict s inst f"
  using assms(2)
proof (induction k arbitrary: i s)
  case 0
  then show ?case by simp
next
  case (Suc k)
  show ?case
  proof (cases "\<exists>sa ra. subs = ListRef sa \<and> recs = ListRef ra \<and> i < length (heap s sa)
                  \<and> heap s sa ! i \<notin> set (heap s ra)")
    case False
    from this Suc.prems have "s' = s" by (rule execute_callbacks_no_call)
    then show ?thesis by simp
  next
    case True
    then obtain sa ra where sr: "subs = ListRef sa" "recs = ListRef ra"
      and i: "i < length (heap s sa)" and n: "heap s sa ! i \<notin> set (heap s ra)"
      by blast
    let ?o = "heap s sa ! i"
    let ?s2 = "s\<lparr>heap := (heap s)(ra := heap s ra @ [?o]),
                  calls := calls s @ [(?o, inst, observable_property d, v)]\<rparr>"
    from Suc.prems i n
    have run: "(case exec_stmts k E (cb_body E ?o inst (observable_property d) v) ?s2 of
                 None \<Rightarrow> None
               | Some (Inl e, s3) \<Rightarrow> Some (Inl e, s3)
               | Some (Inr _, s3) \<Rightarrow> execute_callbacks k E d inst v subs recs (Suc i) s3)
               = Some (r, s')"
      unfolding sr by (simp add: execute_callbacks.simps(2) Let_def)
    then obtain r3 s3 where
      body: "exec_stmts k E (cb_body E ?o inst (observable_property d) v) ?s2 = Some (r3, s3)"
      by (cases "exec_stmts k E (cb_body E ?o inst (observable_property d) v) ?s2") auto
    from body have f3: "inst_dict s3 inst f = inst_dict ?s2 inst f" by (rule assms(1))
    show ?thesis
    proof (cases r3)
      case (Inl e)
      with run body have "s' = s3" by simp
      with f3 show ?thesis by simp
    next
      case (Inr u)
      with run body have "execute_callbacks k E d inst v subs recs (Suc i) s3 = Some (r, s')"
        by simp
      then have "inst_dict s' inst f = inst_dict s3 inst f" by (rule Suc.IH)
      with f3 show ?thesis by simp
    qed
  qed
qed

text \<open>
  C6.  An assignment to a declared observable attribute with a setter runs the whole
  notification loop (from its first subscriber on) in the state in which the backing
  field already holds the new value.  And whatever the outcome of the assignment, an
  exception included: when the getter reads the field that the setter writes and no
  callback body changes that field, reading the attribute afterwards gives the assigned
  value.
\<close>

theorem value_stored_before_notification:
  assumes "observable_at s inst name d sa ra"
    and "fset d = Some f"
  shows "py_setattr (Suc (Suc k)) E inst name v s =
           map_option (finally_clear (ListRef ra))
             (execute_callbacks k E d inst v (ListRef sa) (ListRef ra) 0
                (s\<lparr>inst_dict := (inst_dict s)(inst := (inst_dict s inst)(f \<mapsto> v))\<rparr>))
       \<and> (fget d = Some f \<longrightarrow>
            (\<forall>cb j t r1 t'. exec_stmts j E (cb_body E cb inst name v) t = Some (r1, t')
                \<longrightarrow> inst_dict t' inst f = inst_dict t inst f) \<longrightarrow>
            py_setattr n E inst name v s = Some (r, s1) \<longrightarrow>
            py_getattr s1 inst name = Inr v)"
proof (intro conjI impI)
  let ?s0 = "s\<lparr>inst_dict := (inst_dict s)(inst := (inst_dict s inst)(f \<mapsto> v))\<rparr>"
  have ps: "property_set d inst v s = (Inr (), ?s0)"
    using assms(2) by (simp add: property_set_def)
  from assms(1) have nm: "observable_property d = name" by (simp add: observable_at_def)
  show unfold: "py_setattr (Suc (Suc k)) E inst name v s =
           map_option (finally_clear (ListRef ra))
             (execute_callbacks k E d inst v (ListRef sa) (ListRef ra) 0 ?s0)" for k
    unfolding py_setattr_observable [OF assms(1)]
    using getattr_lists [OF assms(1)] ps by (simp add: observable_set.simps(2))
  assume fg: "fget d = Some f"
    and frame: "\<forall>cb j t r1 t'. exec_stmts j E (cb_body E cb inst name v) t = Some (r1, t')
                \<longrightarrow> inst_dict t' inst f = inst_dict t inst f"
    and run: "py_setattr n E inst name v s = Some (r, s1)"
  from run obtain n1 where n1: "n = Suc n1" by (cases n) simp_all
  from run assms(1) obtain n2 where n2: "n1 = Suc n2"
    unfolding n1 by (cases n1) (simp_all add: py_setattr.simps(2) observable_at_def)
  from run obtain r0 s0 where
    ex: "execute_callbacks n2 E d inst v (ListRef sa) (ListRef ra) 0 ?s0 = Some (r0, s0)"
    and fc: "finally_clear (ListRef ra) (r0, s0) = (r, s1)"
    unfolding n1 n2 unfold by auto
  have fr: "inst_dict t' inst f = inst_dict t inst f"
    if "exec_stmts j E (cb_body E cb inst (observable_property d) v) t = Some (r1, t')"
    for cb j t r1 t'
    using frame that unfolding nm by simp
  have "inst_dict s0 inst f = inst_dict ?s0 inst f"
    using fr ex by (rule execute_callbacks_keeps_field)
  with fc have val: "inst_dict s1 inst f = Some v"
    by (simp add: finally_clear_inst_dict [OF fc])
  from run have "same_classes s s1" by (rule py_setattr_same_classes)
  with assms(1) have "type_lookup s1 inst name = Some (Obs d)"
    by (simp add: observable_at_def same_classes_def type_lookup_def)
  with fg val show "py_getattr s1 inst name = Inr v"
    by (simp add: py_getattr_def property_get_def)
qed

lemma class_lookup_other:
  "k \<noteq> n \<Longrightarrow> class_lookup (cd(c := (cd c)(k \<mapsto> v))) mro n = class_lookup cd mro n"
  by (induction mro) (simp_all split: option.splits)

lemma set_name_guard_empty:
  assumes "\<not> class_hasattr s0 c (''__'' @ n @ ''_recursions'')"
  shows "\<exists>a. cls_dict (snd (set_name d0 c n s0)) c (recursions (fst (set_name d0 c n s0))) = Some (ListRef a)
           \<and> heap (snd (set_name d0 c n s0)) a = []"
  using assms
  by (simp add: set_name_def class_hasattr_def class_setattr_def new_list_def Let_def
      class_lookup_other)

lemma run_observers_passive:
  assumes "observable_at s inst name d sa ra"
    and "heap s ra = []"
    and "distinct (heap s sa)"
    and "\<forall>cb \<in> set (heap s sa). cb_body E cb inst name w = []"
  shows "run_observers (Suc (Suc k) + length (heap s sa)) E d inst w s =
         Some (Inr (), s\<lparr>calls := calls s @ map (\<lambda>cb. (cb, inst, name, w)) (heap s sa)\<rparr>)"
proof -
  from assms(1) have ne: "sa \<noteq> ra" and nm: "observable_property d = name"
    by (simp_all add: observable_at_def)
  have ex: "execute_callbacks (Suc k + length (heap s sa)) E d inst w (ListRef sa) (ListRef ra) 0 s =
         Some (Inr (), s\<lparr>heap := (heap s)(ra := heap s sa),
              calls := calls s @ map (\<lambda>cb. (cb, inst, observable_property d, w)) (heap s sa)\<rparr>)"
    using ne assms(3,2,4) nm by (intro execute_callbacks_all_passive) simp_all
  have "(heap s)(ra := []) = heap s" using assms(2) by auto
  then show ?thesis
    using getattr_lists [OF assms(1)] ex nm
    by (simp add: run_observers.simps(2) finally_clear_def)
qed

lemma observable_notify_passive:
  assumes "observable_at s inst name d sa ra"
    and "cls_dict s (inst_cls s inst) name = Some (Obs d)"
    and "py_getattr s inst name = Inr w"
    and "heap s ra = []"
    and "distinct (heap s sa)"
    and "\<forall>cb \<in> set (heap s sa). cb_body E cb inst name w = []"
  shows "observable_notify (k + length (heap s sa) + 3) E inst name s =
         Some (Inr (), s\<lparr>calls := calls s @ map (\<lambda>cb. (cb, inst, name, w)) (heap s sa)\<rparr>)"
proof -
  have e: "k + length (heap s sa) + 3 = Suc (Suc (Suc k) + length (heap s sa))" by simp
  show ?thesis
    unfolding e using assms(2,3) run_observers_passive [OF assms(1,4,5,6), of k]
    by (simp add: observable_notify.simps(2))
qed

lemma failing_subscribed_eq:
  "failing_subscribed = temperature\<lparr>heap := (heap temperature)(0 := [6, 4])\<rparr>"
  unfolding failing_subscribed_def subscribe_twice_temperature by simp

lemma validator_subscribed_eq:
  "validator_subscribed = temperature\<lparr>heap := (heap temperature)(0 := [6, 8])\<rparr>"
  unfolding validator_subscribed_def subscribe_twice_temperature by simp

lemma raising_callbacks_frame:
  assumes "exec_stmts j raising_callbacks (cb_body raising_callbacks cb inst name v) t = Some (r, t')"
  shows "t' = t"
proof (cases j)
  case 0
  with assms show ?thesis by simp
next
  case (Suc j1)
  show ?thesis
  proof (cases "cb = 4")
    case False
    with assms Suc show ?thesis by (simp add: raising_callbacks_def exec_stmts.simps(2))
  next
    case True
    with assms Suc show ?thesis
      by (cases j1) (simp_all add: raising_callbacks_def exec_stmts.simps(2) exec_stmt.simps(2))
  qed
qed

theorem value_stored_before_notification_witness:
  "observable_at failing_subscribed 10 ''celsius'' celsius 0 1
   \<and> fset celsius = Some ''_celsius''
   \<and> fget celsius = Some ''_celsius''
   \<and> py_setattr 7 raising_callbacks 10 ''celsius'' (Data 20) failing_subscribed =
       Some (Inl (OtherError 0),
         failing_subscribed\<lparr>inst_dict := (inst_dict failing_subscribed)(10 := [''_celsius'' \<mapsto> Data 20]),
           calls := [(6, 10, ''celsius'', Data 20), (4, 10, ''celsius'', Data 20)]\<rparr>)
   \<and> py_getattr
        (failing_subscribed\<lparr>inst_dict := (inst_dict failing_subscribed)(10 := [''_celsius'' \<mapsto> Data 20]),
           calls := [(6, 10, ''celsius'', Data 20), (4, 10, ''celsius'', Data 20)]\<rparr>)
        10 ''celsius'' = Inr (Data 20)"
proof -
  let ?s1 = "failing_subscribed\<lparr>inst_dict := (inst_dict failing_subscribed)(10 := [''_celsius'' \<mapsto> Data 20]),
           calls := [(6, 10, ''celsius'', Data 20), (4, 10, ''celsius'', Data 20)]\<rparr>"
  have oa: "observable_at failing_subscribed 10 ''celsius'' celsius 0 1"
    unfolding failing_subscribed_eq observable_at_heap by (rule observable_at_temperature)
  have g: "heap failing_subscribed 1 = []" by (simp add: failing_subscribed_eq heap_temperature)
  have l: "heap failing_subscribed 0 = [6] @ 4 # []" by (simp add: failing_subscribed_eq)
  have d: "distinct ([6] @ 4 # ([] :: nat list))" by simp
  have p: "\<forall>p \<in> set [6]. cb_body raising_callbacks p 10 ''celsius'' (Data 20) = []"
    by (simp add: raising_callbacks_def)
  have b: "cb_body raising_callbacks 4 10 ''celsius'' (Data 20) = Raise (OtherError 0) # []"
    by (simp add: raising_callbacks_def)
  have i: "inst_dict failing_subscribed 10 = Map.empty" "calls failing_subscribed = []"
    by (simp_all add: failing_subscribed_eq temperature_fields)
  have f: "(7 :: nat) = 1 + length [6 :: nat] + 5" by simp
  have run: "py_setattr 7 raising_callbacks 10 ''celsius'' (Data 20) failing_subscribed =
       Some (Inl (OtherError 0), ?s1)"
    apply (subst f)
    apply (subst raising_cycle [OF oa celsius_fields(1) g l d p b])
    apply (simp add: i)
    done
  have fr: "\<forall>cb j t r1 t'.
      exec_stmts j raising_callbacks (cb_body raising_callbacks cb 10 ''celsius'' (Data 20)) t = Some (r1, t')
      \<longrightarrow> inst_dict t' 10 ''_celsius'' = inst_dict t 10 ''_celsius''"
    using raising_callbacks_frame by blast
  have "py_getattr ?s1 10 ''celsius'' = Inr (Data 20)"
    using value_stored_before_notification [OF oa celsius_fields(1),
        where E = raising_callbacks and v = "Data 20" and n = 7 and r = "Inl (OtherError 0)"
          and ?s1.0 = ?s1 and k = 0]
      celsius_fields(2) fr run
    by blast
  with oa celsius_fields(1,2) run show ?thesis by blast
qed

text \<open>
  C5.  The guard of a declared observable attribute is empty after every notification
  cycle, whatever its outcome: after an assignment (\<open>py_setattr\<close>) that returned or raised,
  and after a manual notification of an attribute that can be read.  So after an
  assignment that failed with any exception, a later assignment to the same attribute,
  with subscribers that return normally, runs its full cycle: it returns normally and has
  called every subscriber in order.  And the guard list that \<open>set_name\<close> creates for a
  class is a new, empty list.
\<close>

theorem guard_cleared_after_cycle:
  assumes "observable_at s inst name d sa ra"
  shows "(py_setattr k E inst name v s = Some (r, s1) \<longrightarrow> heap s1 ra = [])
       \<and> (cls_dict s (inst_cls s inst) name = Some (Obs d) \<longrightarrow>
            py_getattr s inst name = Inr w \<longrightarrow>
            observable_notify k E inst name s = Some (r, s1) \<longrightarrow> heap s1 ra = [])
       \<and> (py_setattr k E inst name v s = Some (Inl e, s1) \<longrightarrow>
            inst_dict s1 inst (subscribers d) = None \<longrightarrow>
            inst_dict s1 inst (recursions d) = None \<longrightarrow>
            fset d = Some f \<longrightarrow>
            distinct (heap s1 sa) \<longrightarrow>
            (\<forall>cb \<in> set (heap s1 sa). cb_body E cb inst name v2 = []) \<longrightarrow>
            py_setattr (j + length (heap s1 sa) + 3) E inst name v2 s1 =
              Some (Inr (), s1\<lparr>inst_dict := (inst_dict s1)(inst := (inst_dict s1 inst)(f \<mapsto> v2)),
                calls := calls s1 @ map (\<lambda>cb. (cb, inst, name, v2)) (heap s1 sa)\<rparr>))
       \<and> (\<not> class_hasattr s0 c (''__'' @ n @ ''_recursions'') \<longrightarrow>
            (\<exists>a. cls_dict (snd (set_name d0 c n s0)) c (recursions (fst (set_name d0 c n s0)))
                   = Some (ListRef a)
               \<and> heap (snd (set_name d0 c n s0)) a = []))"
  using guard_cleared_core [OF assms, of k E v r s1 w e f v2 j] set_name_guard_empty [of s0 c n d0]
  by blast

theorem guard_cleared_after_cycle_witness:
  "observable_at validator_subscribed 10 ''celsius'' celsius 0 1
   \<and> py_setattr 7 example_callbacks 10 ''celsius'' (Data 10) validator_subscribed =
       Some (Inl (OtherError 1),
         validator_subscribed\<lparr>inst_dict := (inst_dict validator_subscribed)(10 := [''_celsius'' \<mapsto> Data 10]),
           calls := [(6, 10, ''celsius'', Data 10), (8, 10, ''celsius'', Data 10)]\<rparr>)
   \<and> heap (validator_subscribed\<lparr>inst_dict := (inst_dict validator_subscribed)(10 := [''_celsius'' \<mapsto> Data 10]),
           calls := [(6, 10, ''celsius'', Data 10), (8, 10, ''celsius'', Data 10)]\<rparr>) 1 = []
   \<and> py_setattr 5 example_callbacks 10 ''celsius'' (Data 40)
        (validator_subscribed\<lparr>inst_dict := (inst_dict validator_subscribed)(10 := [''_celsius'' \<mapsto> Data 10]),
           calls := [(6, 10, ''celsius'', Data 10), (8, 10, ''celsius'', Data 10)]\<rparr>) =
       Some (Inr (),
         validator_subscribed\<lparr>inst_dict := (inst_dict validator_subscribed)(10 := [''_celsius'' \<mapsto> Data 40]),
           calls := [(6, 10, ''celsius'', Data 10), (8, 10, ''celsius'', Data 10),
                     (6, 10, ''celsius'', Data 40), (8, 10, ''celsius'', Data 40)]\<rparr>)
   \<and> observable_notify 5 example_callbacks 10 ''celsius''
        (validator_subscribed\<lparr>inst_dict := (inst_dict validator_subscribed)(10 := [''_celsius'' \<mapsto> Data 40])\<rparr>) =
       Some (Inr (),
         validator_subscribed\<lparr>inst_dict := (inst_dict validator_subscribed)(10 := [''_celsius'' \<mapsto> Data 40]),
           calls := [(6, 10, ''celsius'', Data 40), (8, 10, ''celsius'', Data 40)]\<rparr>)
   \<and> heap (validator_subscribed\<lparr>inst_dict := (inst_dict validator_subscribed)(10 := [''_celsius'' \<mapsto> Data 40]),
           calls := [(6, 10, ''celsius'', Data 40), (8, 10, ''celsius'', Data 40)]\<rparr>) 1 = []
   \<and> \<not> class_hasattr init_state 0 (''__'' @ ''celsius'' @ ''_recursions'')
   \<and> heap (snd (set_name celsius 0 ''celsius'' init_state)) 1 = []"
proof -
  let ?s = "validator_subscribed"
  let ?s1 = "?s\<lparr>inst_dict := (inst_dict ?s)(10 := [''_celsius'' \<mapsto> Data 10]),
           calls := [(6, 10, ''celsius'', Data 10), (8, 10, ''celsius'', Data 10)]\<rparr>"
  let ?s2 = "?s\<lparr>inst_dict := (inst_dict ?s)(10 := [''_celsius'' \<mapsto> Data 40]),
           calls := [(6, 10, ''celsius'', Data 10), (8, 10, ''celsius'', Data 10),
                     (6, 10, ''celsius'', Data 40), (8, 10, ''celsius'', Data 40)]\<rparr>"
  let ?s3 = "?s\<lparr>inst_dict := (inst_dict ?s)(10 := [''_celsius'' \<mapsto> Data 40])\<rparr>"
  let ?s4 = "?s\<lparr>inst_dict := (inst_dict ?s)(10 := [''_celsius'' \<mapsto> Data 40]),
           calls := [(6, 10, ''celsius'', Data 40), (8, 10, ''celsius'', Data 40)]\<rparr>"
  have oa: "observable_at ?s 10 ''celsius'' celsius 0 1"
    unfolding validator_subscribed_eq observable_at_heap by (rule observable_at_temperature)
  have g: "heap ?s 1 = []" by (simp add: validator_subscribed_eq heap_temperature)
  have l: "heap ?s 0 = [6] @ 8 # []" by (simp add: validator_subscribed_eq)
  have d: "distinct ([6] @ 8 # ([] :: nat list))" by simp
  have p: "\<forall>p \<in> set [6]. cb_body example_callbacks p 10 ''celsius'' (Data 10) = []"
    by (simp add: example_callbacks_def example_body_def)
  have b: "cb_body example_callbacks 8 10 ''celsius'' (Data 10) = Raise (OtherError 1) # []"
    by (simp add: example_callbacks_def example_body_def)
  have i: "inst_dict ?s 10 = Map.empty" "calls ?s = []"
    by (simp_all add: validator_subscribed_eq temperature_fields)
  have f: "(7 :: nat) = 1 + length [6 :: nat] + 5" by simp
  have first: "py_setattr 7 example_callbacks 10 ''celsius'' (Data 10) ?s =
       Some (Inl (OtherError 1), ?s1)"
    apply (subst f)
    apply (subst raising_cycle [OF oa celsius_fields(1) g l d p b])
    apply (simp add: i)
    done
  note thm1 = guard_cleared_after_cycle [OF oa,
      where k = 7 and E = example_callbacks and v = "Data 10" and r = "Inl (OtherError 1)"
        and ?s1.0 = ?s1 and e = "OtherError 1" and f = "''_celsius''" and ?v2.0 = "Data 40"
        and j = 0 and ?s0.0 = init_state and c = 0 and n = "''celsius''" and ?d0.0 = celsius]
  from thm1 first have c1: "heap ?s1 1 = []" by blast
  have sh: "inst_dict ?s1 10 (subscribers celsius) = None" "inst_dict ?s1 10 (recursions celsius) = None"
    by (simp_all add: i celsius_def)
  have l1: "heap ?s1 0 = [6, 8]" using l by simp
  have d1: "distinct (heap ?s1 0)" unfolding l1 by simp
  have p1: "\<forall>cb \<in> set (heap ?s1 0). cb_body example_callbacks cb 10 ''celsius'' (Data 40) = []"
    unfolding l1 by (simp add: example_callbacks_def example_body_def)
  from thm1 first sh celsius_fields(1) d1 p1
  have "py_setattr (0 + length (heap ?s1 0) + 3) example_callbacks 10 ''celsius'' (Data 40) ?s1 =
      Some (Inr (), ?s1\<lparr>inst_dict := (inst_dict ?s1)(10 := (inst_dict ?s1 10)(''_celsius'' \<mapsto> Data 40)),
        calls := calls ?s1 @ map (\<lambda>cb. (cb, 10, ''celsius'', Data 40)) (heap ?s1 0)\<rparr>)"
    by blast
  then have c2: "py_setattr 5 example_callbacks 10 ''celsius'' (Data 40) ?s1 = Some (Inr (), ?s2)"
    unfolding l1 by (simp add: i)
  have oa3: "observable_at ?s3 10 ''celsius'' celsius 0 1"
    unfolding validator_subscribed_eq by (simp add: observable_at_def type_lookup_def temperature_defs)
  have cd3: "cls_dict ?s3 (inst_cls ?s3 10) ''celsius'' = Some (Obs celsius)"
    by (simp add: validator_subscribed_eq temperature_defs)
  have ga3: "py_getattr ?s3 10 ''celsius'' = Inr (Data 40)"
    by (simp add: validator_subscribed_eq py_getattr_def type_lookup_def temperature_defs property_get_def)
  have g3: "heap ?s3 1 = []" using g by simp
  have l3: "heap ?s3 0 = [6, 8]" using l by simp
  have d3: "distinct (heap ?s3 0)" unfolding l3 by simp
  have p3: "\<forall>cb \<in> set (heap ?s3 0). cb_body example_callbacks cb 10 ''celsius'' (Data 40) = []"
    unfolding l3 by (simp add: example_callbacks_def example_body_def)
  have "observable_notify (0 + length (heap ?s3 0) + 3) example_callbacks 10 ''celsius'' ?s3 =
      Some (Inr (), ?s3\<lparr>calls := calls ?s3 @ map (\<lambda>cb. (cb, 10, ''celsius'', Data 40)) (heap ?s3 0)\<rparr>)"
    using oa3 cd3 ga3 g3 d3 p3 by (rule observable_notify_passive)
  then have c3: "observable_notify 5 example_callbacks 10 ''celsius'' ?s3 = Some (Inr (), ?s4)"
    unfolding l3 by (simp add: i)
  from guard_cleared_after_cycle [OF oa3,
      where k = 5 and E = example_callbacks and r = "Inr ()" and ?s1.0 = ?s4 and w = "Data 40"]
    cd3 ga3 c3
  have c4: "heap ?s4 1 = []" by blast
  have c5: "\<not> class_hasattr init_state 0 (''__'' @ ''celsius'' @ ''_recursions'')"
    by (simp add: class_hasattr_def init_state_def)
  have c6: "heap (snd (set_name celsius 0 ''celsius'' init_state)) 1 = []"
    by (simp add: set_name_def class_hasattr_def class_setattr_def new_list_def init_state_def)
  from oa first c1 c2 c3 c4 c5 c6 show ?thesis by blast
qed

section \<open>Names that are not observable attributes\<close>

lemma lists_declared_cls_ok:
  "lists_declared s \<longleftrightarrow>
     (\<forall>c. cls_ok s c) \<and> (\<forall>i n. inst_dict s i (''__'' @ n @ ''_subscribers'') = None) \<and>
     (\<forall>c. c \<in> set (cls_mro s c))"
  unfolding lists_declared_def cls_ok_def by blast

lemma subscribers_not_recursions: "n @ ''_subscribers'' \<noteq> m @ ''_recursions''"
proof
  assume "n @ ''_subscribers'' = m @ ''_recursions''"
  then have "rev (n @ ''_subscribers'') = rev (m @ ''_recursions'')" by (rule arg_cong)
  then show False by simp
qed

lemma bookkeeping_names [simp]:
  "bookkeeping (''__'' @ n @ ''_subscribers'')"
  "bookkeeping (''__'' @ n @ ''_recursions'')"
  unfolding bookkeeping_def by blast+

lemma cls_ok_set_name:
  assumes ok: "cls_ok s c"
    and nb: "\<not> bookkeeping n"
  shows "cls_ok (class_setattr c n (Obs (fst (set_name d c n s))) (snd (set_name d c n s))) c"
proof -
  let ?sub = "''__'' @ n @ ''_subscribers''"
  let ?rec = "''__'' @ n @ ''_recursions''"
  let ?s' = "class_setattr c n (Obs (fst (set_name d c n s))) (snd (set_name d c n s))"
  have ne: "?sub \<noteq> n" "?rec \<noteq> n" "?sub \<noteq> ?rec"
    using nb bookkeeping_names [of n] subscribers_not_recursions [of n n] by auto
  have dict: "\<exists>m. cls_dict ?s' c = (cls_dict s c ++ m)(n \<mapsto> Obs (fst (set_name d c n s)))
      \<and> dom m \<subseteq> {?sub, ?rec} \<and> (\<forall>k v. m k = Some v \<longrightarrow> (\<exists>a. v = ListRef a))"
  proof (cases "class_hasattr s c ?sub")
    case True
    note hs = this
    show ?thesis
    proof (cases "class_hasattr s c ?rec")
      case True
      with hs show ?thesis
        by (intro exI [of _ Map.empty]) (simp add: set_name_def class_setattr_def Let_def)
    next
      case False
      with hs show ?thesis
        by (intro exI [of _ "[?rec \<mapsto> ListRef (next_addr s)]"])
          (simp add: set_name_def class_setattr_def new_list_def Let_def)
    qed
  next
    case False
    note hs = this
    let ?s1 = "class_setattr c ?sub (ListRef (next_addr s)) (snd (new_list s))"
    show ?thesis
    proof (cases "class_hasattr ?s1 c ?rec")
      case True
      with hs show ?thesis
        by (intro exI [of _ "[?sub \<mapsto> ListRef (next_addr s)]"])
          (simp add: set_name_def class_setattr_def new_list_def Let_def)
    next
      case False
      with hs show ?thesis
        by (intro exI [of _ "[?sub \<mapsto> ListRef (next_addr s), ?rec \<mapsto> ListRef (Suc (next_addr s))]"])
          (auto simp add: set_name_def class_setattr_def new_list_def Let_def)
    qed
  qed
  then obtain m where d: "cls_dict ?s' c = (cls_dict s c ++ m)(n \<mapsto> Obs (fst (set_name d c n s)))"
    and dm: "dom m \<subseteq> {?sub, ?rec}" and vm: "\<And>k v. m k = Some v \<Longrightarrow> \<exists>a. v = ListRef a"
    by blast
  show ?thesis
    unfolding cls_ok_def
  proof (intro allI impI conjI)
    fix k v
    assume kv: "cls_dict ?s' c k = Some v" and nl: "\<forall>a. v \<noteq> ListRef a"
    show "\<not> bookkeeping k"
    proof (cases "k = n")
      case True
      with nb show ?thesis by simp
    next
      case False
      with kv d have "(cls_dict s c ++ m) k = Some v" by simp
      with nl vm have "cls_dict s c k = Some v"
        by (auto simp: map_add_Some_iff)
      with ok nl show ?thesis unfolding cls_ok_def by blast
    qed
  next
    fix k v n'
    assume kv: "cls_dict ?s' c k = Some v" and k: "k = ''__'' @ n' @ ''_subscribers''"
    have kn: "k \<noteq> n" using k nb bookkeeping_names(1) [of n'] by auto
    show "declares ?s' c n'"
    proof (cases "n' = n")
      case True
      with d show ?thesis by (simp add: declares_def)
    next
      case False
      from kv d kn have "(cls_dict s c ++ m) k = Some v" by simp
      moreover have "m k = None"
      proof -
        have "k \<noteq> ?sub" using k False by simp
        moreover have "k \<noteq> ?rec" using k subscribers_not_recursions [of n' n] by simp
        ultimately show ?thesis using dm by blast
      qed
      ultimately have "cls_dict s c k = Some v" by (simp add: map_add_Some_iff)
      with ok k have dec: "declares s c n'" unfolding cls_ok_def by blast
      then obtain d' where d': "cls_dict s c n' = Some (Obs d')"
        by (auto simp: declares_def split: option.splits val.splits)
      with ok have "\<not> bookkeeping n'" unfolding cls_ok_def by blast
      then have "m n' = None" using dm by (auto simp: bookkeeping_def)
      with d' d False have "cls_dict ?s' c n' = Some (Obs d')"
        by (simp add: map_add_def)
      then show ?thesis by (simp add: declares_def)
    qed
  qed
qed

lemma set_name_frame:
  "inst_dict (snd (set_name d c n s)) = inst_dict s"
  "cls_mro (snd (set_name d c n s)) = cls_mro s"
  "c' \<noteq> c \<Longrightarrow> cls_dict (snd (set_name d c n s)) c' = cls_dict s c'"
  by (simp_all add: set_name_def class_setattr_def new_list_def Let_def)

lemma set_names_frame:
  "inst_dict (set_names c ns s) = inst_dict s"
  "cls_mro (set_names c ns s) = cls_mro s"
  "c' \<noteq> c \<Longrightarrow> cls_dict (set_names c ns s) c' = cls_dict s c'"
proof (induction ns arbitrary: s)
  case Nil
  {
    case 1 show ?case by simp
  next
    case 2 show ?case by simp
  next
    case 3 show ?case by simp
  }
next
  case (Cons a ns)
  obtain n v where a: "a = (n, v)" by (cases a)
  {
    case 1
    show ?case
      using Cons.IH(1) set_name_frame(1)
      by (cases v) (simp_all add: a class_setattr_def split: prod.splits, metis snd_conv)
  next
    case 2
    show ?case
      using Cons.IH(2) set_name_frame(2)
      by (cases v) (simp_all add: a class_setattr_def split: prod.splits, metis snd_conv)
  next
    case 3
    then show ?case
      using Cons.IH(3) set_name_frame(3)
      by (cases v) (simp_all add: a class_setattr_def split: prod.splits, metis snd_conv)
  }
qed

lemma cls_ok_set_names:
  assumes "cls_ok s c"
    and "\<forall>(n, v) \<in> set ns. \<not> bookkeeping n"
  shows "cls_ok (set_names c ns s) c"
  using assms
proof (induction ns arbitrary: s)
  case Nil
  then show ?case by simp
next
  case (Cons a ns)
  obtain n v where a: "a = (n, v)" by (cases a)
  from Cons.prems(2) a have nb: "\<not> bookkeeping n" and rest: "\<forall>(n, v) \<in> set ns. \<not> bookkeeping n"
    by auto
  show ?case
  proof (cases v)
    case (Obs d)
    have "cls_ok (class_setattr c n (Obs (fst (set_name d c n s))) (snd (set_name d c n s))) c"
      using Cons.prems(1) nb by (rule cls_ok_set_name)
    then have "cls_ok (set_names c ns
        (class_setattr c n (Obs (fst (set_name d c n s))) (snd (set_name d c n s)))) c"
      using rest by (rule Cons.IH)
    then show ?thesis by (simp add: a Obs case_prod_beta)
  next
    case (Data x)
    with Cons.IH [OF Cons.prems(1) rest] show ?thesis by (simp add: a)
  next
    case (ListRef x)
    with Cons.IH [OF Cons.prems(1) rest] show ?thesis by (simp add: a)
  qed
qed

lemma cls_ok_other:
  assumes "cls_dict s' c = cls_dict s c"
  shows "cls_ok s' c = cls_ok s c"
  using assms by (simp add: cls_ok_def declares_def)

lemma lists_declared_define_class:
  assumes "lists_declared s"
    and "\<forall>(n, v) \<in> set namespace. \<not> bookkeeping n"
  shows "lists_declared (define_class c base namespace s)"
proof -
  let ?s0 = "s\<lparr>cls_mro := (cls_mro s)(c := c # (case base of None \<Rightarrow> [] | Some b \<Rightarrow> cls_mro s b)),
          cls_dict := (cls_dict s)(c := map_of namespace)\<rparr>"
  let ?s' = "set_names c namespace ?s0"
  have s': "define_class c base namespace s = ?s'" by (simp add: define_class_def)
  from assms(1) have ok: "\<And>c. cls_ok s c"
    and inst: "\<And>i n. inst_dict s i (''__'' @ n @ ''_subscribers'') = None"
    and mro: "\<And>c. c \<in> set (cls_mro s c)"
    unfolding lists_declared_cls_ok by blast+
  have "cls_ok ?s0 c"
    unfolding cls_ok_def
  proof (intro allI impI conjI)
    fix k v
    assume "cls_dict ?s0 c k = Some v"
    then have "(k, v) \<in> set namespace" by (auto dest: map_of_SomeD)
    with assms(2) have nb: "\<not> bookkeeping k" by auto
    then show "\<not> bookkeeping k" .
    fix n
    assume k: "k = ''__'' @ n @ ''_subscribers''"
    have "bookkeeping k" unfolding k by (rule bookkeeping_names)
    with nb show "declares ?s0 c n" by contradiction
  qed
  then have c: "cls_ok ?s' c" using assms(2) by (rule cls_ok_set_names)
  have other: "cls_ok ?s' c'" if "c' \<noteq> c" for c'
  proof -
    from that have "cls_dict ?s' c' = cls_dict s c'" by (simp add: set_names_frame)
    then have "cls_ok ?s' c' = cls_ok s c'" by (rule cls_ok_other)
    with ok show ?thesis by simp
  qed
  have A: "\<forall>c'. cls_ok ?s' c'"
  proof
    fix c'
    show "cls_ok ?s' c'" by (cases "c' = c") (simp_all add: c other)
  qed
  have B: "\<forall>i n. inst_dict ?s' i (''__'' @ n @ ''_subscribers'') = None"
    using inst by (simp add: set_names_frame)
  have C: "\<forall>c'. c' \<in> set (cls_mro ?s' c')"
    using mro by (simp add: set_names_frame)
  show ?thesis unfolding s' lists_declared_cls_ok by (intro conjI A B C)
qed

lemma lists_declared_init: "lists_declared init_state"
  by (simp add: lists_declared_def init_state_def)

lemma lists_declared_new_instance:
  "lists_declared s \<Longrightarrow> lists_declared (new_instance c i s)"
  by (simp add: lists_declared_def new_instance_def declares_def)

lemma lists_declared_heap [simp]: "lists_declared (s\<lparr>heap := h\<rparr>) = lists_declared s"
  by (simp add: lists_declared_def declares_def)

lemma lists_declared_calls [simp]: "lists_declared (s\<lparr>calls := h\<rparr>) = lists_declared s"
  by (simp add: lists_declared_def declares_def)

lemma lists_declared_unsubscribe:
  "lists_declared s \<Longrightarrow> lists_declared (snd (unsubscribe cb inst n s))"
  by (simp add: unsubscribe_def Let_def split: sum.splits val.splits)

lemma lists_declared_subscribe:
  "lists_declared s \<Longrightarrow> lists_declared (snd (subscribe cb inst n s))"
  by (auto simp add: subscribe_def unsubscribe_def Let_def split: sum.splits val.splits prod.splits if_splits)

lemma not_bookkeeping_celsius: "\<not> bookkeeping ''celsius''"
  by (simp add: bookkeeping_def)

lemma lists_declared_temperature: "lists_declared temperature"
  unfolding temperature_def
  by (intro lists_declared_new_instance lists_declared_define_class lists_declared_init)
    (simp add: not_bookkeeping_celsius)


lemma class_lookup_Some:
  "class_lookup cd mro n = Some v \<Longrightarrow> \<exists>c \<in> set mro. cd c n = Some v"
  by (induction mro) (auto split: option.splits)

lemma undeclared_no_list:
  assumes "lists_declared s"
    and "\<forall>c \<in> set (cls_mro s (inst_cls s inst)). \<not> declares s c name"
  shows "py_getattr s inst (''__'' @ name @ ''_subscribers'') = Inl AttributeError"
proof -
  have "type_lookup s inst (''__'' @ name @ ''_subscribers'') = None"
  proof (cases "type_lookup s inst (''__'' @ name @ ''_subscribers'')")
    case None
    then show ?thesis .
  next
    case (Some v)
    then obtain c where c: "c \<in> set (cls_mro s (inst_cls s inst))"
      and v: "cls_dict s c (''__'' @ name @ ''_subscribers'') = Some v"
      unfolding type_lookup_def by (blast dest: class_lookup_Some)
    from assms(1) v have "declares s c name"
      unfolding lists_declared_def by blast
    with assms(2) c show ?thesis by blast
  qed
  moreover have "inst_dict s inst (''__'' @ name @ ''_subscribers'') = None"
    using assms(1) unfolding lists_declared_def by blast
  ultimately show ?thesis by (simp add: py_getattr_def)
qed

text \<open>
  C7.  In a state in which the list attributes come from declarations only, for an
  instance and a name that no class of the instance's MRO declares as an observable
  attribute: \<open>unsubscribe\<close>, \<open>subscribe\<close> and the manual notification each fail with
  \<^verbatim>\<open>ObservablePropertyError\<close> and leave the state as it is.
\<close>

theorem undeclared_name_rejected:
  assumes "lists_declared s"
    and "\<forall>c \<in> set (cls_mro s (inst_cls s inst)). \<not> declares s c name"
  shows "unsubscribe callback inst name s = (Inl ObservablePropertyError, s)
       \<and> subscribe callback inst name s = (Inl ObservablePropertyError, s)
       \<and> observable_notify (Suc k) E inst name s = Some (Inl ObservablePropertyError, s)"
proof -
  have g: "py_getattr s inst (''__'' @ name @ ''_subscribers'') = Inl AttributeError"
    using assms by (rule undeclared_no_list)
  then have u: "unsubscribe callback inst name s = (Inl ObservablePropertyError, s)"
    by (simp add: unsubscribe_def py_hasattr_def)
  then have su: "subscribe callback inst name s = (Inl ObservablePropertyError, s)"
    by (simp add: subscribe_def)
  have "inst_cls s inst \<in> set (cls_mro s (inst_cls s inst))"
    using assms(1) unfolding lists_declared_def by blast
  with assms(2) have "\<not> declares s (inst_cls s inst) name" by blast
  then have "observable_notify (Suc k) E inst name s = Some (Inl ObservablePropertyError, s)"
    by (simp add: observable_notify.simps(2) declares_def split: option.splits val.splits)
  with u su show ?thesis by blast
qed

theorem undeclared_name_rejected_witness:
  "lists_declared logged
   \<and> cls_mro logged (inst_cls logged 10) = [0]
   \<and> \<not> declares logged 0 ''kelvin''
   \<and> unsubscribe 6 10 ''kelvin'' logged = (Inl ObservablePropertyError, logged)
   \<and> subscribe 6 10 ''kelvin'' logged = (Inl ObservablePropertyError, logged)
   \<and> observable_notify 1 example_callbacks 10 ''kelvin'' logged =
        Some (Inl ObservablePropertyError, logged)"
proof -
  have l: "lists_declared logged"
    unfolding logged_def
    by (intro lists_declared_subscribe lists_declared_temperature)
  have m: "cls_mro logged (inst_cls logged 10) = [0]"
    by (simp add: logged_eq temperature_defs)
  have d: "\<not> declares logged 0 ''kelvin''"
    by (simp add: logged_eq temperature_defs declares_def)
  have h: "\<forall>c \<in> set (cls_mro logged (inst_cls logged 10)). \<not> declares logged c ''kelvin''"
    using m d by simp
  show ?thesis
    using l m d undeclared_name_rejected [OF l h, of 6 0 example_callbacks] by simp
qed

section \<open>Lists on the class: sharing between instances, and deletion\<close>

lemmas interp_simps = execute_callbacks.simps(2) run_observers.simps(2) observable_set.simps(2)
  observable_notify.simps(2) py_setattr.simps(2) exec_stmt.simps(2) exec_stmts.simps(2)

lemma mirror_subscribed_eq:
  "mirror_subscribed = temperature\<lparr>heap := (heap temperature)(0 := [9])\<rparr>"
  unfolding mirror_subscribed_def
  by (simp add: subscribe_at [OF observable_at_temperature(1)] heap_temperature)

lemma observable_at_shared:
  assumes "observable_at s i name d sa ra"
    and "inst_cls s j = inst_cls s i"
    and "inst_dict s j (subscribers d) = None"
    and "inst_dict s j (recursions d) = None"
  shows "observable_at s j name d sa ra"
  using assms by (clarsimp simp add: observable_at_def type_lookup_def)

lemma mirror_assignment:
  "map_option fst (py_setattr (Suc (Suc (Suc (Suc (Suc (Suc (Suc (Suc (Suc 0)))))))))
       mirror_callbacks 10 ''celsius'' (Data 5) mirror_subscribed) =
     Some (Inl ObservablePropertyError)"
  by (simp add: mirror_subscribed_eq interp_simps py_getattr_def type_lookup_def
      temperature_defs property_set_def finally_clear_def mirror_callbacks_def mirror_body_def
      Let_def)

text \<open>
  C2 (what the code does).  \<open>set_name\<close> puts the two lists on the class, so all instances
  of the class use the same list objects.  Callback 6 is subscribed for instance 10 only;
  an assignment to the attribute of instance 20 calls it, with instance 20.  And while the
  cycle of instance 10 is running, callback 9 assigns to the attribute of instance 20:
  this fails with \<^verbatim>\<open>ObservablePropertyError\<close>, because instance 20 has the guard of
  instance 10.
\<close>

theorem lists_shared_between_instances:
  "heap (snd (subscribe 6 10 ''celsius'' temperature)) 0 = [6]
   \<and> py_setattr 4 example_callbacks 20 ''celsius'' (Data 5) (snd (subscribe 6 10 ''celsius'' temperature)) =
       Some (Inr (),
         (snd (subscribe 6 10 ''celsius'' temperature))
           \<lparr>inst_dict := (inst_dict temperature)(20 := [''_celsius'' \<mapsto> Data 5]),
            calls := [(6, 20, ''celsius'', Data 5)]\<rparr>)
   \<and> map_option fst (py_setattr 9 mirror_callbacks 10 ''celsius'' (Data 5) mirror_subscribed) =
       Some (Inl ObservablePropertyError)"
proof -
  let ?s = "snd (subscribe 6 10 ''celsius'' temperature)"
  have s: "?s = temperature\<lparr>heap := (heap temperature)(0 := [6])\<rparr>"
    by (simp add: subscribe_at [OF observable_at_temperature(1)] heap_temperature)
  have oa: "observable_at ?s 20 ''celsius'' celsius 0 1"
    unfolding s observable_at_heap by (rule observable_at_temperature)
  have g: "heap ?s 1 = []" by (simp add: s heap_temperature)
  have l: "heap ?s 0 = [6]" by (simp add: s)
  have d: "distinct (heap ?s 0)" unfolding l by simp
  have p: "\<forall>cb \<in> set (heap ?s 0). cb_body example_callbacks cb 20 ''celsius'' (Data 5) = []"
    unfolding l by (simp add: example_callbacks_def example_body_def)
  have "py_setattr (0 + length (heap ?s 0) + 3) example_callbacks 20 ''celsius'' (Data 5) ?s =
      Some (Inr (), ?s\<lparr>inst_dict := (inst_dict ?s)(20 := (inst_dict ?s 20)(''_celsius'' \<mapsto> Data 5)),
         calls := calls ?s @ map (\<lambda>cb. (cb, 20, ''celsius'', Data 5)) (heap ?s 0)\<rparr>)"
    using oa celsius_fields(1) g d p by (rule py_setattr_passive)
  then have a: "py_setattr 4 example_callbacks 20 ''celsius'' (Data 5) ?s =
       Some (Inr (), ?s\<lparr>inst_dict := (inst_dict temperature)(20 := [''_celsius'' \<mapsto> Data 5]),
            calls := [(6, 20, ''celsius'', Data 5)]\<rparr>)"
    unfolding l by (simp add: s temperature_fields)
  have e: "Suc (Suc (Suc (Suc (Suc (Suc (Suc (Suc (Suc 0)))))))) = 9" by simp
  from l a mirror_assignment [unfolded e] show ?thesis by blast
qed

lemma assigned_eq:
  "assigned = logged\<lparr>inst_dict := (inst_dict logged)(10 := [''_celsius'' \<mapsto> Data 20]),
          calls := [(6, 10, ''celsius'', Data 20), (7, 10, ''celsius'', Data 20)]\<rparr>"
proof -
  have h1: "observable_at logged 10 ''celsius'' celsius 0 1"
    unfolding logged_eq observable_at_heap by (rule observable_at_temperature)
  have h3: "heap logged 1 = []" by (simp add: logged_eq heap_temperature)
  have l: "heap logged 0 = [6, 7]" by (simp add: logged_eq)
  have h4: "distinct (heap logged 0)" by (simp add: l)
  have h5: "\<forall>cb \<in> set (heap logged 0). cb_body example_callbacks cb 10 ''celsius'' (Data 20) = []"
    by (simp add: l example_callbacks_def example_body_def)
  have i: "inst_dict logged 10 = Map.empty" "calls logged = []"
    by (simp_all add: logged_eq temperature_defs)
  have "py_setattr (0 + length (heap logged 0) + 3) example_callbacks 10 ''celsius'' (Data 20) logged =
      Some (Inr (), logged\<lparr>inst_dict := (inst_dict logged)(10 := (inst_dict logged 10)(''_celsius'' \<mapsto> Data 20)),
         calls := calls logged @ map (\<lambda>cb. (cb, 10, ''celsius'', Data 20)) (heap logged 0)\<rparr>)"
    using h1 celsius_fields(1) h3 h4 h5 by (rule py_setattr_passive)
  then have "py_setattr 5 example_callbacks 10 ''celsius'' (Data 20) logged =
      Some (Inr (), logged\<lparr>inst_dict := (inst_dict logged)(10 := [''_celsius'' \<mapsto> Data 20]),
          calls := [(6, 10, ''celsius'', Data 20), (7, 10, ''celsius'', Data 20)]\<rparr>)"
    unfolding l by (simp add: i)
  then show ?thesis unfolding assigned_def by simp
qed

lemma delete_assigned:
  "py_delattr 3 10 ''celsius'' assigned =
     Some (Inl AttributeError, assigned\<lparr>inst_dict := (inst_dict assigned)(10 := Map.empty)\<rparr>)"
  by (simp add: assigned_eq logged_eq numeral_3_eq_3 type_lookup_def temperature_defs
      property_delete_def instance_delattr_def)

text \<open>
  C9 (what the code does).  \<^verbatim>\<open>del a.celsius\<close> on an instance whose attribute has a value:
  the deleter removes the stored value, then \<^verbatim>\<open>delattr(instance, "__celsius_subscribers")\<close>
  raises \<^verbatim>\<open>AttributeError\<close>, since the list is an attribute of the class and not of the
  instance.  Both lists are still there, with their subscribers, and a later \<open>subscribe\<close>
  on the attribute succeeds.
\<close>

theorem delete_raises_and_keeps_lists:
  "py_getattr assigned 10 ''celsius'' = Inr (Data 20)
   \<and> map_option fst (py_delattr 3 10 ''celsius'' assigned) = Some (Inl AttributeError)
   \<and> py_getattr deleted 10 ''celsius'' = Inl AttributeError
   \<and> py_getattr deleted 10 ''__celsius_subscribers'' = Inr (ListRef 0)
   \<and> py_getattr deleted 10 ''__celsius_recursions'' = Inr (ListRef 1)
   \<and> heap deleted 0 = [6, 7]
   \<and> fst (subscribe 2 10 ''celsius'' deleted) = Inr ()
   \<and> heap (snd (subscribe 2 10 ''celsius'' deleted)) 0 = [6, 7, 2]"
proof -
  have d: "deleted = assigned\<lparr>inst_dict := (inst_dict assigned)(10 := Map.empty)\<rparr>"
    unfolding deleted_def delete_assigned by simp
  have oa: "observable_at deleted 10 ''celsius'' celsius 0 1"
    unfolding d assigned_eq logged_eq
    by (simp add: observable_at_def type_lookup_def temperature_defs)
  have h: "heap deleted 0 = [6, 7]" by (simp add: d assigned_eq logged_eq)
  have "py_getattr assigned 10 ''celsius'' = Inr (Data 20)"
    by (simp add: assigned_eq logged_eq py_getattr_def type_lookup_def temperature_defs property_get_def)
  moreover have "py_getattr deleted 10 ''celsius'' = Inl AttributeError"
    by (simp add: d assigned_eq logged_eq py_getattr_def type_lookup_def temperature_defs property_get_def)
  moreover have "py_getattr deleted 10 ''__celsius_subscribers'' = Inr (ListRef 0)"
    "py_getattr deleted 10 ''__celsius_recursions'' = Inr (ListRef 1)"
    using getattr_lists [OF oa] by (simp_all add: celsius_def)
  moreover have "fst (subscribe 2 10 ''celsius'' deleted) = Inr ()"
    "heap (snd (subscribe 2 10 ''celsius'' deleted)) 0 = [6, 7, 2]"
    unfolding subscribe_at [OF oa] by (simp_all add: h)
  ultimately show ?thesis unfolding delete_assigned using h by simp
qed

end
